theory Spec2Isabelle
  imports Complex_Main "HOL-Library.Sublist"
begin

text \<open>
  A model of the interview program: the helpers of \<open>utils.py\<close> around the language
  model and Wikipedia, and the page script of \<open>app.py\<close> with its session state. The
  theorems are about the grading normalizer (\<open>clean_json\<close>), the question policy
  (\<open>ask_question\<close>, \<open>get_subtopics\<close>), the poor-area predicates and the session state
  machine (start, question-needed step, answer handler).
\<close>

section \<open>Python strings\<close>

text \<open>
  A Python \<open>str\<close> is modelled as a \<open>string\<close>. A \<open>char\<close> has eight bits, so the
  model covers the strings whose code points are below 256 (Latin-1); the character
  classes below are Python's, restricted to that range.
\<close>

definition is_space :: "char \<Rightarrow> bool" where
  \<comment> \<open>\<open>str.isspace\<close> on one character: TAB..CR, FS..US, SPACE, NEL, NBSP.\<close>
  "is_space c =
     (let n = (of_char c :: nat)
      in (9 \<le> n \<and> n \<le> 13) \<or> (28 \<le> n \<and> n \<le> 32) \<or> n = 133 \<or> n = 160)"

definition lstrip :: "string \<Rightarrow> string" where
  "lstrip s = dropWhile is_space s"

definition rstrip :: "string \<Rightarrow> string" where
  "rstrip s = rev (dropWhile is_space (rev s))"

definition strip :: "string \<Rightarrow> string" where
  \<comment> \<open>\<open>s.strip()\<close>\<close>
  "strip s = rstrip (lstrip s)"

fun find_from :: "nat \<Rightarrow> string \<Rightarrow> string \<Rightarrow> int" where
  "find_from i sub [] = (if sub = [] then int i else - 1)"
| "find_from i sub (c # cs) =
     (if prefix sub (c # cs) then int i else find_from (Suc i) sub cs)"

definition find :: "string \<Rightarrow> string \<Rightarrow> int" where
  \<comment> \<open>\<open>s.find(sub)\<close>: the lowest index where \<open>sub\<close> starts, or \<open>-1\<close>.\<close>
  "find s sub = find_from 0 sub s"

fun rfind_from :: "nat \<Rightarrow> int \<Rightarrow> string \<Rightarrow> string \<Rightarrow> int" where
  "rfind_from i best sub [] = (if sub = [] then int i else best)"
| "rfind_from i best sub (c # cs) =
     rfind_from (Suc i) (if prefix sub (c # cs) then int i else best) sub cs"

definition rfind :: "string \<Rightarrow> string \<Rightarrow> int" where
  \<comment> \<open>\<open>s.rfind(sub)\<close>: the highest index where \<open>sub\<close> starts, or \<open>-1\<close>.\<close>
  "rfind s sub = rfind_from 0 (- 1) sub s"

definition slice :: "string \<Rightarrow> int \<Rightarrow> int \<Rightarrow> string" where
  \<comment> \<open>\<open>s[a:b]\<close> for \<open>0 \<le> a\<close> and \<open>0 \<le> b\<close>, the only case the program uses.\<close>
  "slice s a b = take (nat b - nat a) (drop (nat a) s)"

function replace :: "string \<Rightarrow> string \<Rightarrow> string \<Rightarrow> string" where
  \<comment> \<open>\<open>s.replace(old, new)\<close>: the occurrences of \<open>old\<close>, found from the left and not
      overlapping, each replaced by \<open>new\<close>; one pass.\<close>
  "replace s old new =
     (if old = [] then new @ concat (map (\<lambda>c. c # new) s)
      else if s = [] then []
      else if prefix old s then new @ replace (drop (length old) s) old new
      else hd s # replace (tl s) old new)"
  by pat_completeness auto
termination
  by (relation "measure (\<lambda>(s, old, new). length s)") auto

declare replace.simps [simp del]

section \<open>Values, exceptions and the built-ins the program uses\<close>

text \<open>
  The values that \<open>json.loads\<close> produces, which are also the values the session stores
  as scores and evidence: \<open>None\<close>, \<open>bool\<close>, \<open>int\<close>, \<open>float\<close>, \<open>str\<close>, \<open>list\<close> and \<open>dict\<close>.
  A finite float is represented by the rational it denotes. A dictionary is an
  association list in insertion order; a lookup takes the first entry of a key.
\<close>

datatype pyfloat = Finite rat | PosInf | NegInf | NaN

datatype json =
    JNull
  | JBool bool
  | JInt int
  | JFloat pyfloat
  | JStr string
  | JArr "json list"
  | JObj "(string \<times> json) list"

datatype error =
    JSONDecodeError
  | ValueError
  | TypeError
  | AttributeError
  | IndexError
  | OverflowError
  | DisambiguationError "string list"
  | PageError
  | OtherError string

definition truthy :: "json \<Rightarrow> bool" where
  \<comment> \<open>Python's truth value of an object, as \<open>if x\<close>, \<open>not x\<close> and \<open>x or y\<close> test it.\<close>
  "truthy v =
     (case v of
        JNull \<Rightarrow> False
      | JBool b \<Rightarrow> b
      | JInt n \<Rightarrow> n \<noteq> 0
      | JFloat f \<Rightarrow> f \<noteq> Finite 0
      | JStr s \<Rightarrow> s \<noteq> []
      | JArr xs \<Rightarrow> xs \<noteq> []
      | JObj kvs \<Rightarrow> kvs \<noteq> [])"

definition dict_get :: "json \<Rightarrow> string \<Rightarrow> json \<Rightarrow> error + json" where
  \<comment> \<open>\<open>d.get(key, default)\<close>; only a dict has the method.\<close>
  "dict_get d k dflt =
     (case d of
        JObj kvs \<Rightarrow> (case map_of kvs k of Some v \<Rightarrow> Inr v | None \<Rightarrow> Inr dflt)
      | _ \<Rightarrow> Inl AttributeError)"

definition is_digit :: "char \<Rightarrow> bool" where
  "is_digit c = (let n = (of_char c :: nat) in 48 \<le> n \<and> n \<le> 57)"

definition digit_val :: "char \<Rightarrow> nat" where
  "digit_val c = of_char c - 48"

fun parse_digits :: "bool \<Rightarrow> nat \<Rightarrow> string \<Rightarrow> nat option" where
  \<comment> \<open>Decimal digits, with single underscores allowed between two digits.\<close>
  "parse_digits seen acc [] = (if seen then Some acc else None)"
| "parse_digits seen acc (c # cs) =
     (if is_digit c then parse_digits True (acc * 10 + digit_val c) cs
      else if c = CHR ''_'' \<and> seen \<and> cs \<noteq> [] \<and> is_digit (hd cs)
        then parse_digits False acc cs
      else None)"

definition is_int_space :: "char \<Rightarrow> bool" where
  \<comment> \<open>The whitespace that \<open>int\<close> skips around a number: TAB..CR, SPACE, NEL and NBSP.
      Unlike \<open>str.strip\<close> it does not skip FS..US.\<close>
  "is_int_space c =
     (let n = (of_char c :: nat) in (9 \<le> n \<and> n \<le> 13) \<or> n = 32 \<or> n = 133 \<or> n = 160)"

definition int_of_str :: "string \<Rightarrow> error + int" where
  \<comment> \<open>\<open>int(s)\<close> for a string: surrounding whitespace, an optional sign, decimal digits;
      more than 4300 digits are refused (the interpreter's default limit).\<close>
  "int_of_str s =
     (let t = rev (dropWhile is_int_space (rev (dropWhile is_int_space s)));
          (neg, ds) =
            (case t of
               [] \<Rightarrow> (False, [])
             | c # cs \<Rightarrow>
                 if c = CHR ''-'' then (True, cs)
                 else if c = CHR ''+'' then (False, cs)
                 else (False, t))
      in if length (filter is_digit ds) > 4300 then Inl ValueError
         else
           case parse_digits False 0 ds of
             None \<Rightarrow> Inl ValueError
           | Some n \<Rightarrow> Inr (if neg then - int n else int n))"

definition py_int :: "json \<Rightarrow> error + int" where
  \<comment> \<open>The built-in \<open>int(x)\<close>.\<close>
  "py_int v =
     (case v of
        JInt n \<Rightarrow> Inr n
      | JBool b \<Rightarrow> Inr (if b then 1 else 0)
      | JFloat f \<Rightarrow>
          (case f of
             Finite r \<Rightarrow> Inr (if 0 \<le> r then \<lfloor>r\<rfloor> else \<lceil>r\<rceil>)
           | NaN \<Rightarrow> Inl ValueError
           | _ \<Rightarrow> Inl OverflowError)
      | JStr s \<Rightarrow> int_of_str s
      | _ \<Rightarrow> Inl TypeError)"

section \<open>The world outside the program\<close>

text \<open>
  The chat-completion client, \<open>json.loads\<close> and the \<open>wikipedia\<close> package are not part of
  the repository: they are parameters of the model. A reply of the language model or of
  Wikipedia may differ from call to call, so each of them also receives the number of
  external calls made before it. The calls made so far and the status messages put on
  the page (\<open>st.warning\<close>, \<open>st.error\<close>, \<open>st.info\<close>, \<open>st.success\<close>) are recorded in the
  \<open>world\<close>; headings, captions, metrics and the debugging output on the console are not.
\<close>

datatype call =
    ChatCompletion string rat
  | WikipediaSearch string
  | WikipediaSummary string

datatype notice =
    Warning string "error option"
  | Failure string error
  | Info string
  | Success string

record world =
  calls :: "call list"
  shown :: "notice list"

record env =
  chat_completion :: "nat \<Rightarrow> string \<Rightarrow> rat \<Rightarrow> error + string"
  json_loads :: "string \<Rightarrow> error + json"
  wikipedia_search :: "nat \<Rightarrow> string \<Rightarrow> error + string list"
  wikipedia_summary :: "nat \<Rightarrow> string \<Rightarrow> error + string"

definition ask_llm :: "env \<Rightarrow> string \<Rightarrow> rat \<Rightarrow> world \<Rightarrow> (error + string) \<times> world" where
  \<comment> \<open>Send the prompt to the language model and return the text of the reply.\<close>
  "ask_llm e prompt temperature w =
     (chat_completion e (length (calls w)) prompt temperature,
      w\<lparr>calls := calls w @ [ChatCompletion prompt temperature]\<rparr>)"

definition clean_json :: "env \<Rightarrow> string \<Rightarrow> error + json" where
  "clean_json e text =
     (let s = strip text;
          start = find s ''{'';
          end' = rfind s ''}''
      in if start = - 1 \<or> end' = - 1 \<or> end' \<le> start then Inl JSONDecodeError
         else
           let candidate = slice s start (end' + 1);
               candidate = replace (replace candidate '',}'' ''}'') '',]'' '']''
           in json_loads e candidate)"


section \<open>Wikipedia context\<close>

definition wiki_search :: "env \<Rightarrow> string \<Rightarrow> world \<Rightarrow> string \<times> world" where
  \<comment> \<open>The summary of the first page hit; the empty string when there is none or
      anything fails.\<close>
  "wiki_search e query w =
     (let w1 = w\<lparr>calls := calls w @ [WikipediaSearch query]\<rparr>
      in case wikipedia_search e (length (calls w)) query of
           Inl _ \<Rightarrow> ([], w1)
         | Inr [] \<Rightarrow> ([], w1)
         | Inr (title # _) \<Rightarrow>
             (let w2 = w1\<lparr>calls := calls w1 @ [WikipediaSummary title]\<rparr>
              in case wikipedia_summary e (length (calls w1)) title of
                   Inr snippet \<Rightarrow> (snippet, w2)
                 | Inl (DisambiguationError []) \<Rightarrow> ([], w2)
                 | Inl (DisambiguationError (option # _)) \<Rightarrow>
                     (let w3 = w2\<lparr>calls := calls w2 @ [WikipediaSummary option]\<rparr>
                      in case wikipedia_summary e (length (calls w2)) option of
                           Inr snippet \<Rightarrow> (snippet, w3)
                         | Inl _ \<Rightarrow> ([], w3))
                 | Inl _ \<Rightarrow> ([], w2)))"

definition suggest_wiki_queries_prompt :: "string \<Rightarrow> string \<Rightarrow> string" where
  "suggest_wiki_queries_prompt topic question =
     ''\<newline>    Return ONLY a single JSON object like:'' @
     ''\<newline>    {\"queries\": [\"...\", \"...\"]}\<newline>'' @
     ''\<newline>    Generate up to 2 concise Wikipedia search queries that would help'' @
     ''\<newline>    verify an answer for this interview.\<newline>'' @
     ''\<newline>    Rules:'' @
     ''\<newline>    - Keep each query <= 5 words'' @
     ''\<newline>    - Use simple encyclopaedic terms'' @
     ''\<newline>    - If a standard Wikipedia page title exists use it'' @
     ''\<newline>    - Queries should be directly relevant to the topic/question\<newline>'' @
     ''\<newline>    Topic: '' @ topic @
     ''\<newline>    Question: '' @ question @
     ''\<newline>    ''"

definition lower_char :: "char \<Rightarrow> char" where
  "lower_char c =
     (let n = (of_char c :: nat)
      in if (65 \<le> n \<and> n \<le> 90) \<or> (192 \<le> n \<and> n \<le> 214) \<or> (216 \<le> n \<and> n \<le> 222)
         then char_of (n + 32) else c)"

definition lower :: "string \<Rightarrow> string" where
  \<comment> \<open>\<open>s.lower()\<close>\<close>
  "lower s = map lower_char s"

fun split_ws_from :: "string \<Rightarrow> string \<Rightarrow> string list" where
  "split_ws_from cur [] = (if cur = [] then [] else [cur])"
| "split_ws_from cur (c # cs) =
     (if is_space c then (if cur = [] then [] else [cur]) @ split_ws_from [] cs
      else split_ws_from (cur @ [c]) cs)"

definition split_ws :: "string \<Rightarrow> string list" where
  \<comment> \<open>\<open>s.split()\<close>: the words between runs of whitespace.\<close>
  "split_ws s = split_ws_from [] s"

fun join :: "string \<Rightarrow> string list \<Rightarrow> string" where
  \<comment> \<open>\<open>sep.join(parts)\<close>\<close>
  "join sep [] = []"
| "join sep [x] = x"
| "join sep (x # y # ys) = x @ sep @ join sep (y # ys)"

definition rstrip_chars :: "string \<Rightarrow> string \<Rightarrow> string" where
  \<comment> \<open>\<open>s.rstrip(chars)\<close>\<close>
  "rstrip_chars s chars = rev (dropWhile (\<lambda>c. c \<in> set chars) (rev s))"

definition py_iter :: "json \<Rightarrow> error + json list" where
  \<comment> \<open>The items a \<open>for\<close> loop over the value visits: the elements of a list, the
      characters of a string, the keys of a dict; other values are not iterable.\<close>
  "py_iter v =
     (case v of
        JArr xs \<Rightarrow> Inr xs
      | JStr s \<Rightarrow> Inr (map (\<lambda>c. JStr [c]) s)
      | JObj kvs \<Rightarrow> Inr (map (\<lambda>kv. JStr (fst kv)) kvs)
      | _ \<Rightarrow> Inl TypeError)"

definition or_empty_strip :: "json \<Rightarrow> error + string" where
  \<comment> \<open>\<open>(q or "").strip()\<close>: a false value gives the empty string, and only a string
      has the method.\<close>
  "or_empty_strip q =
     (if \<not> truthy q then Inr []
      else case q of JStr s \<Rightarrow> Inr (strip s) | _ \<Rightarrow> Inl AttributeError)"

fun collect_queries :: "string list \<Rightarrow> string list \<Rightarrow> json list \<Rightarrow> error + string list" where
  \<comment> \<open>The loop of \<open>suggest_wiki_queries\<close> over \<open>queries\<close>, with its \<open>seen\<close> and \<open>out\<close>.\<close>
  "collect_queries seen out [] = Inr out"
| "collect_queries seen out (q # qs) =
     (case or_empty_strip q of
        Inl err \<Rightarrow> Inl err
      | Inr q_clean \<Rightarrow>
          (let q_norm = rstrip_chars (join '' '' (split_ws (lower q_clean))) ''.''
           in if q_clean \<noteq> [] \<and> q_norm \<notin> set seen
              then collect_queries (q_norm # seen) (out @ [q_clean]) qs
              else collect_queries seen out qs))"

definition suggest_wiki_queries ::
  "env \<Rightarrow> string \<Rightarrow> string \<Rightarrow> world \<Rightarrow> (error + string list) \<times> world" where
  \<comment> \<open>Ask the language model for up to 2 short Wikipedia search queries.\<close>
  "suggest_wiki_queries e topic question w =
     (case ask_llm e (suggest_wiki_queries_prompt topic question) (1 / 5) w of
        (Inl err, w1) \<Rightarrow> (Inl err, w1)
      | (Inr raw, w1) \<Rightarrow>
          (case clean_json e raw of
             Inl _ \<Rightarrow> (Inr [], w1)
           | Inr data \<Rightarrow>
               (case dict_get data ''queries'' (JArr []) of
                  Inl _ \<Rightarrow> (Inr [], w1)
                | Inr queries \<Rightarrow>
                    (case py_iter queries of
                       Inl _ \<Rightarrow> (Inr [], w1)
                     | Inr qs \<Rightarrow>
                         (case collect_queries [] [] qs of
                            Inl _ \<Rightarrow> (Inr [], w1)
                          | Inr out \<Rightarrow> (Inr (take 2 out), w1))))))"

fun gather_context :: "env \<Rightarrow> string list \<Rightarrow> string list \<Rightarrow> string list \<Rightarrow> world \<Rightarrow> string list \<times> world" where
  \<comment> \<open>The loop of \<open>build_wiki_context\<close> over the queries, with its \<open>tried\<close> and
      \<open>context_parts\<close>.\<close>
  "gather_context e tried context_parts [] w = (context_parts, w)"
| "gather_context e tried context_parts (q # qs) w =
     (let key = lower (strip q)
      in if key = [] \<or> key \<in> set tried then gather_context e tried context_parts qs w
         else
           (case wiki_search e q w of
              (summary, w1) \<Rightarrow>
                if summary \<noteq> []
                then gather_context e (key # tried) (context_parts @ [summary]) qs w1
                else gather_context e (key # tried) context_parts qs w1))"

definition build_wiki_context ::
  "env \<Rightarrow> string \<Rightarrow> string \<Rightarrow> world \<Rightarrow> (error + string) \<times> world" where
  "build_wiki_context e topic question w =
     (case suggest_wiki_queries e topic question w of
        (Inl err, w1) \<Rightarrow> (Inl err, w1)
      | (Inr qs, w1) \<Rightarrow>
          (case gather_context e [] [] qs w1 of
             (context_parts, w2) \<Rightarrow>
               (Inr (strip (join ''\<newline>\<newline>'' context_parts)), w2)))"

section \<open>Subtopics\<close>

definition get_subtopics_prompt :: "string \<Rightarrow> string" where
  "get_subtopics_prompt topic =
     ''\<newline>    Return ONLY one JSON object:'' @
     ''\<newline>    {\"subtopics\": [\"...\", \"...\", \"...\"]}\<newline>'' @
     ''\<newline>    Give 3 concise subtopics that help verify expertise under this topic.'' @
     ''\<newline>    Keep each subtopic <= 5 words.\<newline>'' @
     ''\<newline>    Topic: '' @ topic @
     ''\<newline>    ''"

fun stripped_nonblank :: "json list \<Rightarrow> error + string list" where
  \<comment> \<open>\<open>[s.strip() for s in items if s.strip()]\<close>; only a string has the method.\<close>
  "stripped_nonblank [] = Inr []"
| "stripped_nonblank (x # xs) =
     (case x of
        JStr s \<Rightarrow>
          (case stripped_nonblank xs of
             Inl err \<Rightarrow> Inl err
           | Inr rest \<Rightarrow> Inr (if strip s \<noteq> [] then strip s # rest else rest))
      | _ \<Rightarrow> Inl AttributeError)"

definition get_subtopics :: "env \<Rightarrow> string \<Rightarrow> world \<Rightarrow> (error + string list) \<times> world" where
  \<comment> \<open>Ask the language model for 3 concise subtopics under the main topic.\<close>
  "get_subtopics e topic w =
     (case ask_llm e (get_subtopics_prompt topic) (1 / 5) w of
        (Inl err, w1) \<Rightarrow> (Inl err, w1)
      | (Inr raw, w1) \<Rightarrow>
          (case clean_json e raw of
             Inl _ \<Rightarrow> (Inr [topic], w1)
           | Inr data \<Rightarrow>
               (case dict_get data ''subtopics'' (JArr []) of
                  Inl _ \<Rightarrow> (Inr [topic], w1)
                | Inr items \<Rightarrow>
                    (case py_iter items of
                       Inl _ \<Rightarrow> (Inr [topic], w1)
                     | Inr xs \<Rightarrow>
                         (case stripped_nonblank xs of
                            Inl _ \<Rightarrow> (Inr [topic], w1)
                          | Inr subs \<Rightarrow>
                              (Inr (if subs \<noteq> [] then take 3 subs else [topic]), w1))))))"


section \<open>Question logic\<close>

definition is_word :: "char \<Rightarrow> bool" where
  \<comment> \<open>A word character of \<open>re\<close> (\<open>\w\<close>): alphanumeric or the underscore.\<close>
  "is_word c =
     (let n = (of_char c :: nat)
      in (48 \<le> n \<and> n \<le> 57) \<or> (65 \<le> n \<and> n \<le> 90) \<or> n = 95 \<or> (97 \<le> n \<and> n \<le> 122)
         \<or> n = 170 \<or> n = 178 \<or> n = 179 \<or> n = 181 \<or> n = 185 \<or> n = 186
         \<or> (188 \<le> n \<and> n \<le> 190) \<or> (192 \<le> n \<and> n \<le> 214) \<or> (216 \<le> n \<and> n \<le> 246)
         \<or> 248 \<le> n)"

definition ascii_lower :: "char \<Rightarrow> char" where
  "ascii_lower c =
     (let n = (of_char c :: nat) in if 65 \<le> n \<and> n \<le> 90 then char_of (n + 32) else c)"

definition answer_label :: "string \<Rightarrow> bool" where
  \<comment> \<open>The text starts with \<open>answer\<close> in any letter case, then any whitespace, then a
      colon: \<open>(?i)answer\s*:\<close> matches at its start.\<close>
  "answer_label s =
     (map ascii_lower (take 6 s) = ''answer'' \<and>
      (case dropWhile is_space (drop 6 s) of [] \<Rightarrow> False | c # _ \<Rightarrow> c = CHR '':''))"

fun before_answer :: "bool \<Rightarrow> string \<Rightarrow> string" where
  \<comment> \<open>\<open>re.split(r"(?i)\banswer\s*:", q)[0]\<close>: the text before the leftmost match. The
      flag says whether the character before the current position is a word
      character, which is what \<open>\b\<close> forbids at the start of a match.\<close>
  "before_answer after_word [] = []"
| "before_answer after_word (c # cs) =
     (if \<not> after_word \<and> answer_label (c # cs) then []
      else c # before_answer (is_word c) cs)"

fun label_in :: "bool \<Rightarrow> string \<Rightarrow> bool" where
  \<comment> \<open>The pattern \<open>(?i)\banswer\s*:\<close> matches somewhere in the text; the flag is
      that of \<open>before_answer\<close>.\<close>
  "label_in after_word [] = False"
| "label_in after_word (c # cs) =
     ((\<not> after_word \<and> answer_label (c # cs)) \<or> label_in (is_word c) cs)"

definition seed_prompt :: "string \<Rightarrow> string \<Rightarrow> string" where
  "seed_prompt topic subtopic =
     ''You are interviewing about '' @ topic @ '' - subtopic: '' @ subtopic @ ''.\<newline>'' @
     ''This is the FIRST question for this subtopic.\<newline>'' @
     ''Ask ONE clear question that tests knowledge in this area.\<newline>'' @
     ''It should be checkable and relevant to this subtopic.\<newline>'' @
     ''Return ONLY the question text, without answers, hints, or commentary. Question:''"

definition followup_head :: "string \<Rightarrow> string \<Rightarrow> string \<Rightarrow> string \<Rightarrow> string" where
  \<comment> \<open>The three lines that the checkpoint, probe and next prompts share.\<close>
  "followup_head topic subtopic prev_q prev_a =
     ''Interview on '' @ topic @ '' - subtopic: '' @ subtopic @ ''.\<newline>'' @
     ''Previous Question: '' @ prev_q @ ''\<newline>'' @
     ''Previous Answer: '' @ prev_a @ ''\<newline>''"

definition checkpoint_prompt :: "string \<Rightarrow> string \<Rightarrow> string \<Rightarrow> string \<Rightarrow> string" where
  "checkpoint_prompt topic subtopic prev_q prev_a =
     followup_head topic subtopic prev_q prev_a @
     ''Ask ONE short checkpoint question to verify a key definition or basic fact.\<newline>'' @
     ''Return ONLY the question text, without answers, hints, or commentary. Question:''"

definition probe_prompt :: "string \<Rightarrow> string \<Rightarrow> string \<Rightarrow> string \<Rightarrow> string" where
  "probe_prompt topic subtopic prev_q prev_a =
     followup_head topic subtopic prev_q prev_a @
     ''Ask ONE follow-up question that forces the candidate to give a specific example or detail.\<newline>'' @
     ''Return ONLY the question text, without answers, hints, or commentary. Question:''"

definition next_prompt :: "string \<Rightarrow> string \<Rightarrow> string \<Rightarrow> string \<Rightarrow> string" where
  "next_prompt topic subtopic prev_q prev_a =
     followup_head topic subtopic prev_q prev_a @
     ''Ask ONE different question that is clear and tests knowledge in the subtopic area.\<newline>'' @
     ''It should be checkable and relevant to this subtopic.\<newline>'' @
     ''No commentary. Question:''"

definition score_of :: "json \<Rightarrow> string \<Rightarrow> error + int" where
  \<comment> \<open>\<open>int(scores.get(key, 0))\<close>\<close>
  "score_of scores k =
     (case dict_get scores k (JInt 0) of Inl err \<Rightarrow> Inl err | Inr v \<Rightarrow> py_int v)"

definition choose_style :: "json \<Rightarrow> string \<Rightarrow> string \<Rightarrow> string \<Rightarrow> string \<Rightarrow> error + string \<times> string" where
  \<comment> \<open>The branches of \<open>ask_question\<close> before the call: the style and its prompt.\<close>
  "choose_style last_scores topic subtopic prev_q prev_a =
     (if \<not> truthy last_scores then Inr (''seed'', seed_prompt topic subtopic)
      else
        case score_of last_scores ''correctness'' of
          Inl err \<Rightarrow> Inl err
        | Inr c \<Rightarrow>
            (case score_of last_scores ''specificity'' of
               Inl err \<Rightarrow> Inl err
             | Inr s \<Rightarrow>
                 if c \<le> 1 then Inr (''checkpoint'', checkpoint_prompt topic subtopic prev_q prev_a)
                 else if s \<le> 1 then Inr (''probe'', probe_prompt topic subtopic prev_q prev_a)
                 else Inr (''next'', next_prompt topic subtopic prev_q prev_a)))"

definition scores_readable :: "json \<Rightarrow> bool" where
  \<comment> \<open>The style choice of \<open>ask_question\<close> raises nothing on these last scores: they are
      false, or a dict whose correctness and specificity convert to integers.\<close>
  "scores_readable ls =
     (if truthy ls
      then \<not> isl (score_of ls ''correctness'') \<and> \<not> isl (score_of ls ''specificity'')
      else True)"

definition clean_question :: "string \<Rightarrow> string" where
  \<comment> \<open>What \<open>ask_question\<close> does to the reply of the language model.\<close>
  "clean_question raw =
     (let q = strip (replace (replace raw ''Question:'' []) ''QUESTION:'' [])
      in strip (before_answer False q))"

definition ask_question ::
  "env \<Rightarrow> string \<Rightarrow> string \<Rightarrow> json \<Rightarrow> string \<Rightarrow> string \<Rightarrow> world
     \<Rightarrow> (error + string \<times> string) \<times> world" where
  \<comment> \<open>Generate the next interview question; the result is the question and its style.\<close>
  "ask_question e topic subtopic last_scores prev_q prev_a w =
     (case choose_style last_scores topic subtopic prev_q prev_a of
        Inl err \<Rightarrow> (Inl err, w)
      | Inr (style, prompt) \<Rightarrow>
          (case ask_llm e prompt (1 / 5) w of
             (Inl err, w1) \<Rightarrow> (Inl err, w1)
           | (Inr raw, w1) \<Rightarrow> (Inr (clean_question raw, style), w1)))"

section \<open>Turns and the poor-area predicates\<close>

text \<open>
  An entry of the history is the dictionary that the answer handler builds, with its
  six fixed keys; the scores and the evidence are whatever the grading produced.
\<close>

record entry =
  entry_subtopic :: string
  entry_style :: string
  entry_question :: string
  entry_answer :: string
  entry_scores :: json
  entry_evidence :: json

fun scores_in :: "string \<Rightarrow> entry list \<Rightarrow> error + int list" where
  \<comment> \<open>\<open>(int(h["scores"].get(key, 0)) for h in history if h.get("scores"))\<close>\<close>
  "scores_in k [] = Inr []"
| "scores_in k (h # hs) =
     (if truthy (entry_scores h)
      then case score_of (entry_scores h) k of
             Inl err \<Rightarrow> Inl err
           | Inr v \<Rightarrow> (case scores_in k hs of Inl err \<Rightarrow> Inl err | Inr vs \<Rightarrow> Inr (v # vs))
      else scores_in k hs)"

definition max_default :: "int list \<Rightarrow> int \<Rightarrow> int" where
  \<comment> \<open>\<open>max(values, default=d)\<close>\<close>
  "max_default vs d = (case vs of [] \<Rightarrow> d | v # rest \<Rightarrow> fold max rest v)"

definition still_poor_after_checkpoint :: "entry list \<Rightarrow> error + bool" where
  \<comment> \<open>True if a checkpoint question was asked but correctness never reached 2.\<close>
  "still_poor_after_checkpoint history =
     (let asked = list_ex (\<lambda>h. entry_style h = ''checkpoint'') history
      in case scores_in ''correctness'' history of
           Inl err \<Rightarrow> Inl err
         | Inr vs \<Rightarrow> Inr (asked \<and> max_default vs 0 < 2))"

definition still_poor_after_probe :: "entry list \<Rightarrow> error + bool" where
  \<comment> \<open>True if a probe question was asked but specificity never reached 2.\<close>
  "still_poor_after_probe history =
     (let asked = list_ex (\<lambda>h. entry_style h = ''probe'') history
      in case scores_in ''specificity'' history of
           Inl err \<Rightarrow> Inl err
         | Inr vs \<Rightarrow> Inr (asked \<and> max_default vs 0 < 2))"


section \<open>The session state and the page script\<close>

record poor_area =
  area_subtopic :: string
  area_reasons :: "string list"
  area_turns :: "entry list"

record session =
  topic :: string
  subtopics :: "string list"
  sub_idx :: nat
  turns_in_sub :: nat
  last_scores :: json
  history_sub :: "entry list"
  full_history :: "entry list"
  poor_areas :: "poor_area list"
  question :: string
  style :: string
  awaiting_answer :: bool
  finished :: bool

text \<open>
  What the user has entered and pressed when the script runs: the sidebar widgets, the
  start button, and the answer form.
\<close>

record inputs =
  user_topic :: string
  max_subtopics :: nat
  subtopic_inputs :: "string list"
  start_click :: bool
  submitted :: bool
  answer :: string

definition user_subtopics :: "inputs \<Rightarrow> string list" where
  \<comment> \<open>The texts of the first \<open>max_subtopics\<close> subtopic boxes, stripped, blanks dropped.\<close>
  "user_subtopics inp =
     filter (\<lambda>s. s \<noteq> []) (map strip (take (max_subtopics inp) (subtopic_inputs inp)))"

definition valid_subtopics :: "inputs \<Rightarrow> bool" where
  "valid_subtopics inp =
     (length (user_subtopics inp) = 0 \<or> length (user_subtopics inp) = max_subtopics inp)"

definition start_button :: "inputs \<Rightarrow> bool" where
  \<comment> \<open>The button is disabled unless the subtopic inputs are valid.\<close>
  "start_button inp = (start_click inp \<and> valid_subtopics inp)"

definition init_state :: "inputs \<Rightarrow> session" where
  "init_state inp =
     \<lparr>topic = strip (user_topic inp),
      subtopics = [],
      sub_idx = 0,
      turns_in_sub = 0,
      last_scores = JNull,
      history_sub = [],
      full_history = [],
      poor_areas = [],
      question = [],
      style = [],
      awaiting_answer = False,
      finished = False\<rparr>"

text \<open>
  How a run of the script, or a part of it, ends: it goes on to the next statement, it
  is halted by \<open>st.stop()\<close>, it asks for a rerun with \<open>st.rerun()\<close>, or an exception
  that nothing catches ends it.
\<close>

datatype outcome = Continue | Stopped | Rerun | Raised error

definition say :: "notice \<Rightarrow> world \<Rightarrow> world" where
  "say n w = w\<lparr>shown := shown w @ [n]\<rparr>"

definition enter_topic_text :: string where
  "enter_topic_text =
     ''Enter a topic and press 'Start/Restart interview'. '' @
     ''Fill all subtopics for manual input or leave blank to autogenerate.''"

definition start :: "env \<Rightarrow> inputs \<Rightarrow> world \<Rightarrow> outcome \<times> session \<times> world" where
  \<comment> \<open>The block under \<open>if start_button\<close>. It begins with \<open>init_state()\<close>, so it does not
      depend on the state before.\<close>
  "start e inp w =
     (let s = init_state inp
      in if topic s = [] then (Stopped, s, say (Warning enter_topic_text None) w)
         else if user_subtopics inp \<noteq> [] then (Rerun, s\<lparr>subtopics := user_subtopics inp\<rparr>, w)
         else
           case get_subtopics e (topic s) w of
             (Inl err, w1) \<Rightarrow> (Rerun, s, say (Failure ''Failed to get subtopics: '' err) w1)
           | (Inr subs, w1) \<Rightarrow> (Rerun, s\<lparr>subtopics := take (max_subtopics inp) subs\<rparr>, w1))"

definition question_needed :: "env \<Rightarrow> string \<Rightarrow> session \<Rightarrow> world \<Rightarrow> outcome \<times> session \<times> world" where
  \<comment> \<open>The block under \<open>if not st.session_state.question or not
      st.session_state.awaiting_answer\<close>, for the current subtopic \<open>sub\<close>.\<close>
  "question_needed e sub s w =
     (if question s = [] \<or> \<not> awaiting_answer s then
        (let prev_q = (if history_sub s \<noteq> [] then entry_question (last (history_sub s)) else []);
             prev_a = (if history_sub s \<noteq> [] then entry_answer (last (history_sub s)) else [])
         in case ask_question e (topic s) sub (last_scores s) prev_q prev_a w of
              (Inl err, w1) \<Rightarrow> (Stopped, s, say (Failure ''Failed to generate question: '' err) w1)
            | (Inr (q, sty), w1) \<Rightarrow>
                (Continue, s\<lparr>question := q, style := sty, awaiting_answer := True\<rparr>, w1))
      else (Continue, s, w))"

definition grading_prompt :: "string \<Rightarrow> string \<Rightarrow> string \<Rightarrow> string \<Rightarrow> string" where
  "grading_prompt topic' question' context' answer' =
     ''\<newline>'' @
     ''            You are grading an interview answer.\<newline>'' @
     ''\<newline>'' @
     ''            Provide ONLY a JSON object:\<newline>'' @
     ''            {\"correctness\": <0-3>, \"specificity\": <0-3>, \"evidence\": {\"verdict\": \"supported\" | \"contradicted\" | \"insufficient\", \"reason\": \"short sentence\"}}\<newline>'' @
     ''\<newline>'' @
     ''            Scoring criteria:\<newline>'' @
     ''            - correctness:\<newline>'' @
     ''            0 = wrong/irrelevant\<newline>'' @
     ''            1 = mostly wrong or missing key points\<newline>'' @
     ''            2 = mostly correct but incomplete or vague\<newline>'' @
     ''            3 = fully correct, complete, and precise\<newline>'' @
     ''            - specificity:\<newline>'' @
     ''            0 = vague/general\<newline>'' @
     ''            1 = somewhat specific, lacks detail\<newline>'' @
     ''            2 = specific but not thorough\<newline>'' @
     ''            3 = highly precise with clear details/examples\<newline>'' @
     ''\<newline>'' @
     ''            Rules:\<newline>'' @
     ''            - Use CONTEXT to inform correctness:\<newline>'' @
     ''            - If CONTEXT explicitly refutes a claim in the ANSWER, verdict=\"contradicted\" and correctness <= 1.\<newline>'' @
     ''            - If CONTEXT supports key claims, verdict=\"supported\" and correctness >= 2 (unless other major errors).\<newline>'' @
     ''            - If CONTEXT is unrelated/insufficient, verdict=\"insufficient\". Do NOT penalise correctness for irrelevance, judge correctness from general knowledge.\<newline>'' @
     ''\<newline>'' @
     ''            Topic: '' @ topic' @ ''\<newline>'' @
     ''            Question: '' @ question' @ ''\<newline>'' @
     ''            Context: '' @ (if context' \<noteq> [] then context' else ''[no context found]'') @ ''\<newline>'' @
     ''            Answer: '' @ answer' @ ''\<newline>'' @
     ''            ''"

definition no_answer_scores :: json where
  "no_answer_scores = JObj [(''correctness'', JInt 0), (''specificity'', JInt 0)]"

definition no_answer_evidence :: json where
  "no_answer_evidence =
     JObj [(''verdict'', JStr ''insufficient''), (''reason'', JStr ''no answer'')]"

definition unparsed_result :: json where
  \<comment> \<open>The result that stands in when the grading call or the parsing fails.\<close>
  "unparsed_result =
     JObj [(''correctness'', JInt 0), (''specificity'', JInt 0),
           (''evidence'',
            JObj [(''verdict'', JStr ''insufficient''),
                  (''reason'', JStr ''Could not parse JSON'')])]"

definition record_entry :: "entry \<Rightarrow> json \<Rightarrow> session \<Rightarrow> session" where
  \<comment> \<open>The four assignments that both branches of the answer handler make.\<close>
  "record_entry en scores s =
     s\<lparr>history_sub := history_sub s @ [en],
       full_history := full_history s @ [en],
       last_scores := scores,
       awaiting_answer := False\<rparr>"

definition grade :: "env \<Rightarrow> string \<Rightarrow> string \<Rightarrow> string \<Rightarrow> world \<Rightarrow> json \<times> world" where
  \<comment> \<open>The Wikipedia context, whose failure only warns, then the grading call and the
      parsing of its reply, whose failure gives the stand-in result.\<close>
  "grade e topic' question' answer' w =
     (let (context', w1) =
            (case build_wiki_context e topic' question' w of
               (Inl err, w') \<Rightarrow> ([], say (Warning ''Wikipedia context unavailable: '' (Some err)) w')
             | (Inr c, w') \<Rightarrow> (c, w'))
      in case ask_llm e (grading_prompt topic' question' context' answer') 0 w1 of
           (Inl _, w2) \<Rightarrow> (unparsed_result, w2)
         | (Inr raw, w2) \<Rightarrow>
             (case clean_json e raw of
                Inl _ \<Rightarrow> (unparsed_result, w2)
              | Inr result \<Rightarrow> (result, w2)))"

definition show_scores :: "json \<Rightarrow> error + json" where
  \<comment> \<open>The block under \<open># Show scores\<close>: the two conversions and the reading of the
      evidence can each raise; the value is the evidence \<open>ev\<close>.\<close>
  "show_scores result =
     (case score_of result ''correctness'' of
        Inl err \<Rightarrow> Inl err
      | Inr c \<Rightarrow>
          (case score_of result ''specificity'' of
             Inl err \<Rightarrow> Inl err
           | Inr s \<Rightarrow>
               (case dict_get result ''evidence'' (JObj []) of
                  Inl err \<Rightarrow> Inl err
                | Inr ev \<Rightarrow>
                    if truthy ev
                    then (case dict_get ev ''verdict'' JNull of
                            Inl err \<Rightarrow> Inl err
                          | Inr _ \<Rightarrow> Inr ev)
                    else Inr ev)))"

definition close_subtopic :: "session \<Rightarrow> session" where
  \<comment> \<open>The assignments under \<open># Advance to next subtopic or finish\<close>.\<close>
  "close_subtopic s =
     (let s1 = s\<lparr>sub_idx := sub_idx s + 1,
                 turns_in_sub := 0,
                 last_scores := JNull,
                 history_sub := [],
                 question := [],
                 style := []\<rparr>
      in if sub_idx s1 \<ge> length (subtopics s1) then s1\<lparr>finished := True\<rparr> else s1)"

definition flag_poor_area :: "string \<Rightarrow> session \<Rightarrow> error + session" where
  \<comment> \<open>The block under \<open># Flag poor areas for this subtopic\<close>.\<close>
  "flag_poor_area sub s =
     (case still_poor_after_checkpoint (history_sub s) of
        Inl err \<Rightarrow> Inl err
      | Inr after_checkpoint \<Rightarrow>
          (case still_poor_after_probe (history_sub s) of
             Inl err \<Rightarrow> Inl err
           | Inr after_probe \<Rightarrow>
               if after_checkpoint \<or> after_probe then
                 Inr (s\<lparr>poor_areas := poor_areas s @
                        [\<lparr>area_subtopic = sub,
                          area_reasons =
                            (if after_checkpoint
                             then [''correctness stayed < 2 after a checkpoint question'']
                             else []) @
                            (if after_probe
                             then [''specificity stayed < 2 after a probe question'']
                             else []),
                          area_turns = history_sub s\<rparr>]\<rparr>)
               else Inr s))"

definition submit :: "env \<Rightarrow> string \<Rightarrow> string \<Rightarrow> session \<Rightarrow> world \<Rightarrow> outcome \<times> session \<times> world" where
  \<comment> \<open>The block under \<open>if submitted\<close>, for the current subtopic \<open>sub\<close> and the text of the
      answer box.\<close>
  "submit e sub answer' s0 w =
     (let s = s0\<lparr>turns_in_sub := turns_in_sub s0 + 1\<rparr>
      in if strip answer' = [] then
           (Rerun,
            record_entry
              \<lparr>entry_subtopic = sub, entry_style = style s, entry_question = question s,
               entry_answer = [], entry_scores = no_answer_scores,
               entry_evidence = no_answer_evidence\<rparr>
              no_answer_scores s,
            w)
         else
           case grade e (topic s) (question s) answer' w of
             (result, w1) \<Rightarrow>
               (case show_scores result of
                  Inl err \<Rightarrow> (Raised err, s, w1)
                | Inr ev \<Rightarrow>
                    (let s1 = record_entry
                                \<lparr>entry_subtopic = sub, entry_style = style s,
                                 entry_question = question s, entry_answer = answer',
                                 entry_scores = result, entry_evidence = ev\<rparr>
                                result s;
                         last_subtopic = (int (sub_idx s1) \<ge> int (length (subtopics s1)) - 1)
                     in if turns_in_sub s1 \<ge> 2 then
                          (let w2 = say (Info (''Subtopic turn limit reached.'' @
                                          (if \<not> last_subtopic
                                           then '' Advancing to next subtopic.'' else []))) w1
                           in case flag_poor_area sub s1 of
                                Inl err \<Rightarrow> (Raised err, s1, w2)
                              | Inr s2 \<Rightarrow> (Rerun, close_subtopic s2, w2))
                        else (Rerun, s1, w1))))"

definition main_flow :: "env \<Rightarrow> inputs \<Rightarrow> session \<Rightarrow> world \<Rightarrow> outcome \<times> session \<times> world" where
  \<comment> \<open>The part of the script under \<open># ------ Main flow ----\<close>.\<close>
  "main_flow e inp s w =
     (if finished s then (Continue, s, say (Success ''Interview complete.'') w)
      else if subtopics s = [] then (Stopped, s, say (Info enter_topic_text) w)
      else if sub_idx s \<ge> length (subtopics s) then (Raised IndexError, s, w)
      else
        (let sub = subtopics s ! sub_idx s
         in case question_needed e sub s w of
              (Continue, s1, w1) \<Rightarrow>
                if submitted inp then submit e sub (answer inp) s1 w1 else (Continue, s1, w1)
            | stopped \<Rightarrow> stopped))"

definition script :: "env \<Rightarrow> inputs \<Rightarrow> session option \<Rightarrow> world \<Rightarrow> outcome \<times> session \<times> world" where
  \<comment> \<open>One run of the page script up to the final report, from the session state that the
      browser session holds (none on its first run).\<close>
  "script e inp held w =
     (let s = (case held of None \<Rightarrow> init_state inp | Some s \<Rightarrow> s)
      in if start_button inp then start e inp w else main_flow e inp s w)"


fun session_run :: "env \<Rightarrow> inputs list \<Rightarrow> session option \<Rightarrow> world \<Rightarrow> session option \<times> world" where
  \<comment> \<open>A browser session: the script runs once for each user action or rerun, on the
      session state that the run before left.\<close>
  "session_run e [] held w = (held, w)"
| "session_run e (inp # rest) held w =
     (case script e inp held w of (_, s, w1) \<Rightarrow> session_run e rest (Some s) w1)"

section \<open>The clean-up of the question as the specification words it\<close>

function drop_leading_labels :: "string \<Rightarrow> string" where
  \<comment> \<open>Strip the labels \<open>Question:\<close> and \<open>QUESTION:\<close> that lead the text.\<close>
  "drop_leading_labels s =
     (if prefix ''Question:'' (lstrip s) then drop_leading_labels (drop 9 (lstrip s))
      else if prefix ''QUESTION:'' (lstrip s) then drop_leading_labels (drop 9 (lstrip s))
      else s)"
  by pat_completeness auto
termination
proof (relation "measure length")
  show "wf (measure length)" by simp
next
  fix s :: string
  assume "prefix ''Question:'' (lstrip s)"
  then have "9 \<le> length (lstrip s)"
    using prefix_length_le by fastforce
  moreover have "length (lstrip s) \<le> length s"
    by (simp add: lstrip_def length_dropWhile_le)
  ultimately show "(drop 9 (lstrip s), s) \<in> measure length" by simp
next
  fix s :: string
  assume "prefix ''QUESTION:'' (lstrip s)"
  then have "9 \<le> length (lstrip s)"
    using prefix_length_le by fastforce
  moreover have "length (lstrip s) \<le> length s"
    by (simp add: lstrip_def length_dropWhile_le)
  ultimately show "(drop 9 (lstrip s), s) \<in> measure length" by simp
qed

declare drop_leading_labels.simps [simp del]

fun cut_at_answer_label :: "string \<Rightarrow> string" where
  \<comment> \<open>The text before the first occurrence of \<open>Answer:\<close> in any letter case.\<close>
  "cut_at_answer_label [] = []"
| "cut_at_answer_label (c # cs) =
     (if map ascii_lower (take 7 (c # cs)) = ''answer:'' then []
      else c # cut_at_answer_label cs)"

definition described_clean_question :: "string \<Rightarrow> string" where
  \<comment> \<open>Leading labels stripped, the text cut at the first \<open>Answer:\<close> label, whitespace
      trimmed.\<close>
  "described_clean_question raw = strip (cut_at_answer_label (drop_leading_labels raw))"

section \<open>Example environments, inputs and sessions\<close>

definition fresh_world :: world where
  "fresh_world = \<lparr>calls = [], shown = []\<rparr>"

definition sample_loads :: "string \<Rightarrow> error + json" where
  \<comment> \<open>A parser that knows one document and rejects every other text.\<close>
  "sample_loads s =
     (if s = ''{\"correctness\":2,\"specificity\":1}''
      then Inr (JObj [(''correctness'', JInt 2), (''specificity'', JInt 1)])
      else Inl JSONDecodeError)"

definition scripted_env :: "string list \<Rightarrow> env" where
  \<comment> \<open>The language model answers the external call number \<open>n\<close> with the \<open>n\<close>-th reply
      of the list and fails when the list is used up; Wikipedia finds nothing.\<close>
  "scripted_env replies =
     \<lparr>chat_completion =
        (\<lambda>n prompt temperature.
           if n < length replies then Inr (replies ! n) else Inl (OtherError ''no reply'')),
      json_loads = sample_loads,
      wikipedia_search = (\<lambda>n query. Inr []),
      wikipedia_summary = (\<lambda>n title. Inl PageError)\<rparr>"

definition databases_inputs :: inputs where
  \<comment> \<open>Topic Databases with the single manual subtopic Indexing; nothing pressed.\<close>
  "databases_inputs =
     \<lparr>user_topic = ''Databases'', max_subtopics = 1, subtopic_inputs = [''Indexing''],
      start_click = False, submitted = False, answer = []\<rparr>"

definition pending_session :: "string \<Rightarrow> session" where
  \<comment> \<open>The session after a start with \<open>databases_inputs\<close> and one generated question
      with the given text, which awaits its answer.\<close>
  "pending_session q =
     (init_state databases_inputs)
       \<lparr>subtopics := [''Indexing''], question := q, style := ''seed'',
        awaiting_answer := True\<rparr>"

definition graded_env :: env where
  \<comment> \<open>The model gives no usable query suggestions, then a grading that the sample
      parser reads as correctness 2 and specificity 1.\<close>
  "graded_env =
     scripted_env [''none'', ''noise{\"correctness\":2,\"specificity\":1,}noise'']"

definition answer_inputs :: "string \<Rightarrow> inputs" where
  \<comment> \<open>The answer form submitted with the given text.\<close>
  "answer_inputs a = databases_inputs\<lparr>submitted := True, answer := a\<rparr>"

definition same_question_env :: env where
  "same_question_env =
     scripted_env [''What is an index?'', ''What is an index?'', ''What is an index?'']"

definition blank_topic_inputs :: inputs where
  \<comment> \<open>The start button pressed with nothing but spaces in the topic box.\<close>
  "blank_topic_inputs =
     \<lparr>user_topic = ''  '', max_subtopics = 1, subtopic_inputs = [[]],
      start_click = True, submitted = False, answer = []\<rparr>"

definition generate_inputs :: inputs where
  \<comment> \<open>The start button pressed with the topic Networks and the subtopic box left
      blank, so that the subtopics are to be generated.\<close>
  "generate_inputs =
     \<lparr>user_topic = ''Networks'', max_subtopics = 1, subtopic_inputs = [[]],
      start_click = True, submitted = False, answer = []\<rparr>"

definition one_question_env :: env where
  "one_question_env = scripted_env [''What is an index?'']"

definition scores_of :: "int \<Rightarrow> int \<Rightarrow> json" where
  \<comment> \<open>The scores dictionary with the given correctness and specificity.\<close>
  "scores_of c s = JObj [(''correctness'', JInt c), (''specificity'', JInt s)]"

definition turn_with :: "string \<Rightarrow> int \<Rightarrow> int \<Rightarrow> entry" where
  \<comment> \<open>A turn on the subtopic Indexing with the given style, correctness and
      specificity.\<close>
  "turn_with sty c s =
     \<lparr>entry_subtopic = ''Indexing'', entry_style = sty,
      entry_question = ''What is an index?'', entry_answer = ''A B-tree'',
      entry_scores = JObj [(''correctness'', JInt c), (''specificity'', JInt s)],
      entry_evidence = JObj []\<rparr>"

definition subtopics_env :: env where
  \<comment> \<open>The model replies with an empty object, which the parser of this environment
      reads as five suggested subtopics, one of them blank.\<close>
  "subtopics_env =
     \<lparr>chat_completion = (\<lambda>n prompt temperature. Inr ''{}''),
      json_loads =
        (\<lambda>s. Inr (JObj [(''subtopics'',
                 JArr [JStr '' Indexing '', JStr ''  '', JStr ''Joins'',
                       JStr ''Transactions'', JStr ''Locks''])])),
      wikipedia_search = (\<lambda>n query. Inr []),
      wikipedia_summary = (\<lambda>n title. Inl PageError)\<rparr>"

definition noisy_grading :: string where
  \<comment> \<open>A grading with text around the object and a comma before the closing brace.\<close>
  "noisy_grading = ''noise{\"correctness\":2,\"specificity\":1,}noise''"

section \<open>The conversion of strings to integers\<close>

lemma int_of_str_examples:
  "int_of_str '' 2 '' = Inr 2"
  "int_of_str [char_of (160 :: nat), CHR ''-'', CHR ''1'', CHR ''_'', CHR ''0'', char_of (133 :: nat)]
     = Inr (- 10)"
  "int_of_str [char_of (28 :: nat), CHR ''2'', char_of (28 :: nat)] = Inl ValueError"
  "strip [char_of (28 :: nat), CHR ''2'', char_of (28 :: nat)] = ''2''"
  "int_of_str ''- 2'' = Inl ValueError"
  "int_of_str ''1__0'' = Inl ValueError"
  "int_of_str [] = Inl ValueError"
  by code_simp+

section \<open>Facts about trimming\<close>

lemma rstrip_split: "s = rstrip s @ rev (takeWhile is_space (rev s))"
  unfolding rstrip_def by (metis rev_append rev_rev_ident takeWhile_dropWhile_id)

lemma strip_empty_iff: "strip s = [] \<longleftrightarrow> (\<forall>c\<in>set s. is_space c)"
proof -
  have "strip s = [] \<longleftrightarrow> (\<forall>c\<in>set (dropWhile is_space s). is_space c)"
    by (simp add: strip_def lstrip_def rstrip_def)
  also have "\<dots> \<longleftrightarrow> dropWhile is_space s = []"
  proof
    assume all: "\<forall>c\<in>set (dropWhile is_space s). is_space c"
    show "dropWhile is_space s = []"
    proof (rule ccontr)
      assume ne: "dropWhile is_space s \<noteq> []"
      then have "\<not> is_space (hd (dropWhile is_space s))"
        by (rule hd_dropWhile)
      moreover have "hd (dropWhile is_space s) \<in> set (dropWhile is_space s)"
        using ne by simp
      ultimately show False using all by blast
    qed
  qed (auto dest: set_dropWhileD)
  also have "\<dots> \<longleftrightarrow> (\<forall>c\<in>set s. is_space c)"
    by simp
  finally show ?thesis .
qed

lemma strip_first_not_space:
  assumes "strip s \<noteq> []"
  shows "\<not> is_space (hd (strip s))"
proof -
  let ?u = "dropWhile is_space s"
  have u: "?u \<noteq> []"
    using assms by (auto simp: strip_def lstrip_def rstrip_def dest: set_dropWhileD)
  have split: "?u = strip s @ rev (takeWhile is_space (rev ?u))"
    unfolding strip_def lstrip_def rstrip_def
    by (metis rev_append rev_rev_ident takeWhile_dropWhile_id)
  have "hd ?u = hd (strip s)"
    using assms by (subst split) simp
  moreover have "\<not> is_space (hd ?u)"
    using u by (rule hd_dropWhile)
  ultimately show ?thesis by simp
qed

lemma strip_last_not_space:
  assumes "strip s \<noteq> []"
  shows "\<not> is_space (last (strip s))"
proof -
  have "rev (strip s) = dropWhile is_space (rev (lstrip s))"
    by (simp add: strip_def rstrip_def)
  moreover have "rev (strip s) \<noteq> []"
    using assms by simp
  ultimately have "\<not> is_space (hd (rev (strip s)))"
    by (metis hd_dropWhile)
  then show ?thesis
    using assms by (simp add: hd_rev)
qed

lemma strip_fixed:
  assumes "s = [] \<or> (\<not> is_space (hd s) \<and> \<not> is_space (last s))"
  shows "strip s = s"
proof (cases "s = []")
  case True
  then show ?thesis by (simp add: strip_def lstrip_def rstrip_def)
next
  case False
  then have h: "\<not> is_space (hd s)" and l: "\<not> is_space (last s)"
    using assms by auto
  have "dropWhile is_space s = s"
    using False h by (cases s) auto
  moreover have "dropWhile is_space (rev s) = rev s"
    using False l by (cases "rev s") (auto simp: last_rev [symmetric] hd_rev)
  ultimately show ?thesis
    by (simp add: strip_def lstrip_def rstrip_def)
qed

lemma strip_strip: "strip (strip s) = strip s"
  using strip_first_not_space [of s] strip_last_not_space [of s]
  by (intro strip_fixed) auto

lemma strip_decomp:
  "\<exists>A B. text = A @ strip text @ B \<and> (\<forall>c\<in>set A. is_space c) \<and> (\<forall>c\<in>set B. is_space c)"
proof -
  let ?A = "takeWhile is_space text"
  let ?u = "dropWhile is_space text"
  let ?B = "rev (takeWhile is_space (rev ?u))"
  have "?u = strip text @ ?B"
    using rstrip_split [of ?u] by (simp add: strip_def lstrip_def)
  then have "text = ?A @ strip text @ ?B"
    by (metis takeWhile_dropWhile_id)
  moreover have "\<forall>c\<in>set ?A. is_space c"
    by (auto dest: set_takeWhileD)
  moreover have "\<forall>c\<in>set ?B. is_space c"
    by (auto dest: set_takeWhileD)
  ultimately show ?thesis by blast
qed

lemma blank_answer: "strip [] = []"
  by (simp add: strip_def lstrip_def rstrip_def)

section \<open>Empty answers\<close>

text \<open>
  C5. Submitting an empty or whitespace-only answer, in any session state, increments
  the turn counter, appends to both histories one entry for the pending question with
  the empty answer, scores \<open>{correctness: 0, specificity: 0}\<close> and evidence
  \<open>{verdict: insufficient, reason: no answer}\<close>, makes these scores the last scores,
  clears the awaiting-answer flag and asks for a rerun. The world is returned as it
  was: no call to the language model and none to Wikipedia is made.
\<close>

theorem empty_answer_recorded:
  assumes "strip a = []"
  shows "submit e sub a s w =
       (Rerun,
        s\<lparr>turns_in_sub := turns_in_sub s + 1,
          history_sub := history_sub s @
            [\<lparr>entry_subtopic = sub, entry_style = style s, entry_question = question s,
              entry_answer = [],
              entry_scores = JObj [(''correctness'', JInt 0), (''specificity'', JInt 0)],
              entry_evidence =
                JObj [(''verdict'', JStr ''insufficient''), (''reason'', JStr ''no answer'')]\<rparr>],
          full_history := full_history s @
            [\<lparr>entry_subtopic = sub, entry_style = style s, entry_question = question s,
              entry_answer = [],
              entry_scores = JObj [(''correctness'', JInt 0), (''specificity'', JInt 0)],
              entry_evidence =
                JObj [(''verdict'', JStr ''insufficient''), (''reason'', JStr ''no answer'')]\<rparr>],
          last_scores := JObj [(''correctness'', JInt 0), (''specificity'', JInt 0)],
          awaiting_answer := False\<rparr>,
        w)"
  using assms
  by (simp add: submit_def record_entry_def no_answer_scores_def no_answer_evidence_def)

theorem empty_answer_recorded_witness:
  "strip ''  '' = [] \<and>
   (case submit (scripted_env []) ''Indexing'' ''  '' (pending_session ''What is an index?'')
           fresh_world of
      (out, s, w) \<Rightarrow>
        out = Rerun \<and> turns_in_sub s = 1 \<and> \<not> awaiting_answer s \<and>
        map entry_scores (full_history s) =
          [JObj [(''correctness'', JInt 0), (''specificity'', JInt 0)]] \<and>
        calls w = [])"
proof -
  have blank: "strip ''  '' = []"
    by (simp add: strip_def lstrip_def rstrip_def is_space_def)
  show ?thesis
    using blank
      empty_answer_recorded [OF blank, of "scripted_env []" "''Indexing''"
        "pending_session ''What is an index?''" fresh_world]
    by (simp add: pending_session_def init_state_def fresh_world_def)
qed


section \<open>The pending question\<close>



lemma choose_style_readable:
  "scores_readable ls \<Longrightarrow> \<exists>sty prompt. choose_style ls t u p a = Inr (sty, prompt)"
  by (auto simp: scores_readable_def choose_style_def split: sum.splits if_splits)





section \<open>Recording a turn and closing a subtopic\<close>

lemma flag_poor_area_cases:
  "flag_poor_area sub s = Inr s2 \<Longrightarrow>
   s2 = s \<or> (\<exists>a. s2 = s\<lparr>poor_areas := poor_areas s @ [a]\<rparr>)"
  by (auto simp: flag_poor_area_def split: sum.splits if_splits)

lemma submit_closure:
  assumes "submit e sub a s w = (out, s', w')" and "sub_idx s' \<noteq> sub_idx s"
  shows "sub_idx s' = sub_idx s + 1 \<and> turns_in_sub s' = 0 \<and> last_scores s' = JNull \<and>
     history_sub s' = [] \<and> question s' = [] \<and> style s' = [] \<and>
     topic s' = topic s \<and> subtopics s' = subtopics s \<and> \<not> awaiting_answer s' \<and>
     (\<exists>en. full_history s' = full_history s @ [en]) \<and>
     (poor_areas s' = poor_areas s \<or> (\<exists>ar. poor_areas s' = poor_areas s @ [ar])) \<and>
     (finished s' \<longleftrightarrow> finished s \<or> sub_idx s' \<ge> length (subtopics s)) \<and>
     strip a \<noteq> [] \<and> turns_in_sub s + 1 \<ge> 2 \<and> out = Rerun"
  using assms
  by (auto simp: submit_def Let_def record_entry_def close_subtopic_def
      dest!: flag_poor_area_cases split: if_splits prod.splits sum.splits)

lemma submit_frame:
  assumes "submit e sub a s w = (out, s', w')"
  shows "topic s' = topic s \<and> subtopics s' = subtopics s \<and>
     prefix (full_history s) (full_history s') \<and> prefix (poor_areas s) (poor_areas s')"
  using assms
  by (auto simp: submit_def Let_def record_entry_def close_subtopic_def
      dest!: flag_poor_area_cases split: if_splits prod.splits sum.splits)

lemma submit_counter:
  assumes "submit e sub a s w = (out, s', w')"
  shows "(turns_in_sub s' = 0 \<longleftrightarrow> sub_idx s' = sub_idx s + 1) \<and>
     (sub_idx s' = sub_idx s \<or> sub_idx s' = sub_idx s + 1) \<and>
     (sub_idx s' = sub_idx s \<longrightarrow> turns_in_sub s' = turns_in_sub s + 1) \<and>
     (strip a \<noteq> [] \<and> out = Rerun \<and> turns_in_sub s + 1 \<ge> 2 \<longrightarrow> sub_idx s' = sub_idx s + 1) \<and>
     (strip a \<noteq> [] \<and> turns_in_sub s + 1 < 2 \<longrightarrow> sub_idx s' = sub_idx s) \<and>
     (strip a = [] \<longrightarrow> sub_idx s' = sub_idx s)"
  using assms
  by (auto simp: submit_def Let_def record_entry_def close_subtopic_def
      dest!: flag_poor_area_cases split: if_splits prod.splits sum.splits)

lemma question_needed_frame:
  assumes "question_needed e sub s w = (out, s', w')"
  shows "s' = s \<or> (\<exists>q sty. s' = s\<lparr>question := q, style := sty, awaiting_answer := True\<rparr>)"
  using assms
  by (auto simp: question_needed_def Let_def split: if_splits prod.splits sum.splits)

lemma main_flow_cases:
  assumes "main_flow e inp s w = (out, s', w')"
  obtains (same) "s' = s"
  | (asked) q sty where "s' = s\<lparr>question := q, style := sty, awaiting_answer := True\<rparr>"
  | (answered) s1 w1 where "\<not> finished s" and "sub_idx s < length (subtopics s)"
      and "s1 = s \<or> (\<exists>q sty. s1 = s\<lparr>question := q, style := sty, awaiting_answer := True\<rparr>)"
      and "submit e (subtopics s ! sub_idx s) (answer inp) s1 w1 = (out, s', w')"
proof -
  show thesis
  proof (cases "finished s \<or> subtopics s = [] \<or> sub_idx s \<ge> length (subtopics s)")
    case True
    then have "s' = s"
      using assms by (auto simp: main_flow_def split: if_splits)
    then show thesis by (rule same)
  next
    case False
    obtain o1 s1 w1 where qn: "question_needed e (subtopics s ! sub_idx s) s w = (o1, s1, w1)"
      by (cases "question_needed e (subtopics s ! sub_idx s) s w") auto
    have fr: "s1 = s \<or> (\<exists>q sty. s1 = s\<lparr>question := q, style := sty, awaiting_answer := True\<rparr>)"
      using question_needed_frame [OF qn] .
    show thesis
    proof (cases "o1 = Continue \<and> submitted inp")
      case True
      then have "submit e (subtopics s ! sub_idx s) (answer inp) s1 w1 = (out, s', w')"
        using assms False qn by (simp add: main_flow_def)
      then show thesis
        using False fr by (intro answered [of s1 w1]) auto
    next
      case no: False
      then have "s' = s1"
        using assms False qn by (cases o1) (auto simp: main_flow_def split: if_splits)
      then show thesis
        using fr same asked by blast
    qed
  qed
qed

lemma graded_turn:
  "main_flow graded_env (answer_inputs ''A B-tree'')
      ((pending_session ''What is an index?'')\<lparr>turns_in_sub := 1\<rparr>) fresh_world
   = (Rerun,
      (init_state databases_inputs)
        \<lparr>subtopics := [''Indexing''], sub_idx := 1, finished := True,
         full_history :=
           [\<lparr>entry_subtopic = ''Indexing'', entry_style = ''seed'',
             entry_question = ''What is an index?'', entry_answer = ''A B-tree'',
             entry_scores = JObj [(''correctness'', JInt 2), (''specificity'', JInt 1)],
             entry_evidence = JObj []\<rparr>]\<rparr>,
      snd (snd (main_flow graded_env (answer_inputs ''A B-tree'')
        ((pending_session ''What is an index?'')\<lparr>turns_in_sub := 1\<rparr>) fresh_world)))"
  by code_simp

text \<open>
  C6. In every run of the main flow the full history and the list of poor areas only
  grow, and the topic and the subtopic list stay. When the run closes a subtopic (the
  subtopic index changes), the index has grown by exactly 1, the turn counter is 0, the
  last scores are none, the subtopic history, the pending question and its style are
  empty, the full history has gained the turn just recorded, the list of poor areas is
  unchanged or has gained one entry, and the finished flag is set exactly when the new
  index is beyond the last subtopic index.
\<close>

theorem subtopic_closure:
  assumes "main_flow e inp s w = (out, s', w')"
  shows "prefix (full_history s) (full_history s') \<and> prefix (poor_areas s) (poor_areas s') \<and>
     topic s' = topic s \<and> subtopics s' = subtopics s \<and>
     (sub_idx s' \<noteq> sub_idx s \<longrightarrow>
        sub_idx s' = sub_idx s + 1 \<and> turns_in_sub s' = 0 \<and> last_scores s' = JNull \<and>
        history_sub s' = [] \<and> question s' = [] \<and> style s' = [] \<and>
        (\<exists>en. full_history s' = full_history s @ [en]) \<and>
        (poor_areas s' = poor_areas s \<or> (\<exists>ar. poor_areas s' = poor_areas s @ [ar])) \<and>
        (finished s' \<longleftrightarrow> int (sub_idx s') > int (length (subtopics s)) - 1))"
  using assms
proof (cases rule: main_flow_cases)
  case same
  then show ?thesis by simp
next
  case (asked q sty)
  then show ?thesis by simp
next
  case (answered s1 w1)
  have same: "full_history s1 = full_history s" "poor_areas s1 = poor_areas s"
    "topic s1 = topic s" "subtopics s1 = subtopics s" "sub_idx s1 = sub_idx s"
    "finished s1 = finished s"
    using answered(3) by auto
  have frame: "topic s' = topic s1 \<and> subtopics s' = subtopics s1 \<and>
     prefix (full_history s1) (full_history s') \<and> prefix (poor_areas s1) (poor_areas s')"
    using submit_frame [OF answered(4)] .
  show ?thesis
  proof (cases "sub_idx s' = sub_idx s")
    case True
    then show ?thesis using frame same by simp
  next
    case False
    then have "sub_idx s' \<noteq> sub_idx s1" using same by simp
    from submit_closure [OF answered(4) this] show ?thesis
      using frame same answered(1) by auto
  qed
qed

theorem subtopic_closure_witness:
  "(case main_flow graded_env (answer_inputs ''A B-tree'')
          ((pending_session ''What is an index?'')\<lparr>turns_in_sub := 1\<rparr>) fresh_world of
      (out, s', w') \<Rightarrow>
        sub_idx s' \<noteq> sub_idx ((pending_session ''What is an index?'')\<lparr>turns_in_sub := 1\<rparr>) \<and>
        sub_idx s' = 1 \<and> turns_in_sub s' = 0 \<and> last_scores s' = JNull \<and>
        history_sub s' = [] \<and> question s' = [] \<and> style s' = [] \<and>
        length (full_history s') = 1 \<and> poor_areas s' = [] \<and> finished s' \<and>
        topic s' = ''Databases'' \<and> subtopics s' = [''Indexing''])"
  using subtopic_closure [OF graded_turn]
  by (subst graded_turn)
    (simp add: pending_session_def init_state_def databases_inputs_def strip_def lstrip_def
      rstrip_def is_space_def)

section \<open>The advancement check\<close>

lemma graded_closing_turn:
  "submit graded_env ''Indexing'' ''A B-tree''
      ((pending_session ''What is an index?'')\<lparr>turns_in_sub := 1\<rparr>) fresh_world
   = (Rerun,
      (init_state databases_inputs)
        \<lparr>subtopics := [''Indexing''], sub_idx := 1, finished := True,
         full_history :=
           [\<lparr>entry_subtopic = ''Indexing'', entry_style = ''seed'',
             entry_question = ''What is an index?'', entry_answer = ''A B-tree'',
             entry_scores = JObj [(''correctness'', JInt 2), (''specificity'', JInt 1)],
             entry_evidence = JObj []\<rparr>]\<rparr>,
      snd (snd (submit graded_env ''Indexing'' ''A B-tree''
        ((pending_session ''What is an index?'')\<lparr>turns_in_sub := 1\<rparr>) fresh_world)))"
  by code_simp

lemma graded_first_turn:
  "submit graded_env ''Indexing'' ''A B-tree'' (pending_session ''What is an index?'')
      fresh_world
   = (Rerun,
      (init_state databases_inputs)
        \<lparr>subtopics := [''Indexing''], turns_in_sub := 1,
         last_scores := JObj [(''correctness'', JInt 2), (''specificity'', JInt 1)],
         history_sub :=
           [\<lparr>entry_subtopic = ''Indexing'', entry_style = ''seed'',
             entry_question = ''What is an index?'', entry_answer = ''A B-tree'',
             entry_scores = JObj [(''correctness'', JInt 2), (''specificity'', JInt 1)],
             entry_evidence = JObj []\<rparr>],
         full_history :=
           [\<lparr>entry_subtopic = ''Indexing'', entry_style = ''seed'',
             entry_question = ''What is an index?'', entry_answer = ''A B-tree'',
             entry_scores = JObj [(''correctness'', JInt 2), (''specificity'', JInt 1)],
             entry_evidence = JObj []\<rparr>],
         question := ''What is an index?'', style := ''seed''\<rparr>,
      snd (snd (submit graded_env ''Indexing'' ''A B-tree''
        (pending_session ''What is an index?'') fresh_world)))"
  by code_simp

lemma some_answer: "strip ''A B-tree'' \<noteq> []"
  by code_simp

lemma empty_second_turn:
  "submit graded_env ''Indexing'' []
      ((pending_session ''What is an index?'')\<lparr>turns_in_sub := 1\<rparr>) fresh_world
   = (Rerun,
      (init_state databases_inputs)
        \<lparr>subtopics := [''Indexing''], turns_in_sub := 2,
         last_scores := JObj [(''correctness'', JInt 0), (''specificity'', JInt 0)],
         history_sub :=
           [\<lparr>entry_subtopic = ''Indexing'', entry_style = ''seed'',
             entry_question = ''What is an index?'', entry_answer = [],
             entry_scores = JObj [(''correctness'', JInt 0), (''specificity'', JInt 0)],
             entry_evidence =
               JObj [(''verdict'', JStr ''insufficient''), (''reason'', JStr ''no answer'')]\<rparr>],
         full_history :=
           [\<lparr>entry_subtopic = ''Indexing'', entry_style = ''seed'',
             entry_question = ''What is an index?'', entry_answer = [],
             entry_scores = JObj [(''correctness'', JInt 0), (''specificity'', JInt 0)],
             entry_evidence =
               JObj [(''verdict'', JStr ''insufficient''), (''reason'', JStr ''no answer'')]\<rparr>],
         question := ''What is an index?'', style := ''seed''\<rparr>,
      fresh_world)"
  by code_simp

text \<open>
  C1, as the code has it. The advancement check runs after a turn with a non-empty
  answer, and only there. When the handler records such a turn and ends with its rerun,
  the subtopic closes on that turn if the counter, incremented for this turn, is at
  least 2 (index plus 1, counter 0), and otherwise the index stays and the counter is
  one more. A turn with an empty answer only increments the counter: the index stays,
  whatever the counter is. In every case the counter is 0 after the handler exactly when
  the index has grown by 1, and the index never changes in another way.
\<close>

theorem advancement_check:
  assumes "submit e sub a s w = (out, s', w')"
  shows "(strip a \<noteq> [] \<and> out = Rerun \<and> turns_in_sub s + 1 \<ge> 2 \<longrightarrow>
            sub_idx s' = sub_idx s + 1 \<and> turns_in_sub s' = 0) \<and>
         (strip a \<noteq> [] \<and> turns_in_sub s + 1 < 2 \<longrightarrow>
            sub_idx s' = sub_idx s \<and> turns_in_sub s' = turns_in_sub s + 1) \<and>
         (strip a = [] \<longrightarrow> sub_idx s' = sub_idx s \<and> turns_in_sub s' = turns_in_sub s + 1) \<and>
         (turns_in_sub s' = 0 \<longleftrightarrow> sub_idx s' = sub_idx s + 1) \<and>
         (sub_idx s' = sub_idx s \<or> sub_idx s' = sub_idx s + 1)"
  using submit_counter [OF assms] by auto

theorem advancement_check_witness:
  "strip ''A B-tree'' \<noteq> [] \<and> strip [] = [] \<and>
   (case submit graded_env ''Indexing'' ''A B-tree''
           ((pending_session ''What is an index?'')\<lparr>turns_in_sub := 1\<rparr>) fresh_world of
      (out, s', w') \<Rightarrow> out = Rerun \<and> sub_idx s' = 1 \<and> turns_in_sub s' = 0) \<and>
   (case submit graded_env ''Indexing'' ''A B-tree'' (pending_session ''What is an index?'')
           fresh_world of
      (out, s', w') \<Rightarrow> out = Rerun \<and> sub_idx s' = 0 \<and> turns_in_sub s' = 1) \<and>
   (case submit graded_env ''Indexing'' []
           ((pending_session ''What is an index?'')\<lparr>turns_in_sub := 1\<rparr>) fresh_world of
      (out, s', w') \<Rightarrow> out = Rerun \<and> sub_idx s' = 0 \<and> turns_in_sub s' = 2)"
  using some_answer blank_answer
    advancement_check [OF graded_closing_turn]
    advancement_check [OF graded_first_turn]
    advancement_check [OF empty_second_turn]
  apply (subst graded_closing_turn)
  apply (subst graded_first_turn)
  apply (subst empty_second_turn)
  apply (simp add: pending_session_def init_state_def)
  done

text \<open>
  C1 as stated fails on empty answers. A session is started on the topic Databases
  with the one subtopic Indexing, and the candidate submits the empty answer three
  times, each after the rerun that asks the next question. Three turns are recorded in
  the subtopic and the counter is 3, yet the subtopic index is still 0 and the session
  is not finished: no turn closed the subtopic, and the counter exceeds 2.
\<close>

theorem empty_answers_counterexample:
  "(case session_run same_question_env
          [databases_inputs\<lparr>start_click := True\<rparr>,
           databases_inputs, answer_inputs [],
           databases_inputs, answer_inputs [],
           databases_inputs, answer_inputs []]
          None fresh_world of
      (None, w) \<Rightarrow> False
    | (Some s, w) \<Rightarrow>
        turns_in_sub s = 3 \<and> sub_idx s = 0 \<and> length (history_sub s) = 3 \<and>
        length (full_history s) = 3 \<and> \<not> finished s)"
  by code_simp

section \<open>Start and restart\<close>

lemma get_subtopics_failure:
  "chat_completion e (length (calls w)) (get_subtopics_prompt t) (1 / 5) = Inl err \<Longrightarrow>
   get_subtopics e t w =
     (Inl err, w\<lparr>calls := calls w @ [ChatCompletion (get_subtopics_prompt t) (1 / 5)]\<rparr>)"
  by (simp add: get_subtopics_def ask_llm_def)

text \<open>
  C8, as the code has it. A press of the start button replaces the session state,
  whatever it was, by the cleared state with the topic just entered. If that topic is
  blank, the warning is shown and the run stops in the cleared state. If the subtopics
  are to be generated and the call of the language model fails, the error is shown and
  the run asks for a rerun in the cleared state, which has the new topic and no
  subtopics: on it the main flow only shows the prompt to enter a topic and stops, so
  the session is back before its start. The state before the press is not kept.
\<close>

theorem start_clears_state:
  "(start_button inp \<longrightarrow> script e inp held w = start e inp w) \<and>
   (strip (user_topic inp) = [] \<longrightarrow>
      start e inp w = (Stopped, init_state inp, say (Warning enter_topic_text None) w)) \<and>
   (strip (user_topic inp) \<noteq> [] \<and> user_subtopics inp = [] \<and>
    chat_completion e (length (calls w)) (get_subtopics_prompt (strip (user_topic inp))) (1 / 5)
      = Inl err \<longrightarrow>
      fst (start e inp w) = Rerun \<and>
      fst (snd (start e inp w)) = init_state inp \<and>
      shown (snd (snd (start e inp w)))
        = shown w @ [Failure ''Failed to get subtopics: '' err] \<and>
      (\<forall>e' inp' w'. main_flow e' inp' (init_state inp) w'
         = (Stopped, init_state inp, say (Info enter_topic_text) w')))"
proof (intro conjI impI)
  assume "start_button inp"
  then show "script e inp held w = start e inp w"
    by (simp add: script_def)
next
  assume "strip (user_topic inp) = []"
  then show "start e inp w = (Stopped, init_state inp, say (Warning enter_topic_text None) w)"
    by (simp add: start_def init_state_def)
next
  assume a: "strip (user_topic inp) \<noteq> [] \<and> user_subtopics inp = [] \<and>
    chat_completion e (length (calls w)) (get_subtopics_prompt (strip (user_topic inp))) (1 / 5)
      = Inl err"
  then have run: "start e inp w =
      (Rerun, init_state inp,
       say (Failure ''Failed to get subtopics: '' err)
         (w\<lparr>calls := calls w @
            [ChatCompletion (get_subtopics_prompt (strip (user_topic inp))) (1 / 5)]\<rparr>))"
    using get_subtopics_failure [of e w "strip (user_topic inp)" err]
    by (simp add: start_def init_state_def)
  show "fst (start e inp w) = Rerun" by (simp add: run)
  show "fst (snd (start e inp w)) = init_state inp" by (simp add: run)
  show "shown (snd (snd (start e inp w))) = shown w @ [Failure ''Failed to get subtopics: '' err]"
    by (simp add: run say_def)
  show "\<forall>e' inp' w'. main_flow e' inp' (init_state inp) w'
         = (Stopped, init_state inp, say (Info enter_topic_text) w')"
    by (simp add: main_flow_def init_state_def)
qed

theorem start_clears_state_witness:
  "start_button blank_topic_inputs \<and>
   script (scripted_env []) blank_topic_inputs (Some (pending_session ''What is an index?''))
       fresh_world
     = start (scripted_env []) blank_topic_inputs fresh_world \<and>
   strip (user_topic blank_topic_inputs) = [] \<and>
   start (scripted_env []) blank_topic_inputs fresh_world
     = (Stopped, init_state blank_topic_inputs,
        say (Warning enter_topic_text None) fresh_world) \<and>
   strip (user_topic generate_inputs) \<noteq> [] \<and> user_subtopics generate_inputs = [] \<and>
   chat_completion (scripted_env []) (length (calls fresh_world))
       (get_subtopics_prompt (strip (user_topic generate_inputs))) (1 / 5)
     = Inl (OtherError ''no reply'') \<and>
   fst (start (scripted_env []) generate_inputs fresh_world) = Rerun \<and>
   fst (snd (start (scripted_env []) generate_inputs fresh_world)) = init_state generate_inputs \<and>
   shown (snd (snd (start (scripted_env []) generate_inputs fresh_world)))
     = [Failure ''Failed to get subtopics: '' (OtherError ''no reply'')]"
proof -
  have pressed: "start_button blank_topic_inputs"
    by code_simp
  have blank: "strip (user_topic blank_topic_inputs) = []"
    by code_simp
  have named: "strip (user_topic generate_inputs) \<noteq> []"
    by code_simp
  have none: "user_subtopics generate_inputs = []"
    by code_simp
  have fails: "chat_completion (scripted_env []) (length (calls fresh_world))
       (get_subtopics_prompt (strip (user_topic generate_inputs))) (1 / 5)
     = Inl (OtherError ''no reply'')"
    by (simp add: scripted_env_def)
  note blank_case = start_clears_state [of blank_topic_inputs "scripted_env []"
      "Some (pending_session ''What is an index?'')" fresh_world "OtherError ''no reply''"]
  note failed_case = start_clears_state [of generate_inputs "scripted_env []" None fresh_world
      "OtherError ''no reply''"]
  show ?thesis
    using pressed blank named none fails blank_case failed_case
    by (simp add: fresh_world_def)
qed

text \<open>
  C8 as stated fails: a failed start changes the session state. A session on the
  topic Databases has a question pending. A press of the start button with a blank
  topic shows the warning and leaves the cleared state, without topic, subtopics or
  question. A press with the topic Networks, when the model fails to generate the
  subtopics, shows the error and leaves the cleared state with the topic Networks and
  no subtopics. Neither state is the one before the press.
\<close>

theorem failed_start_counterexample:
  "(case script (scripted_env []) blank_topic_inputs
          (Some (pending_session ''What is an index?'')) fresh_world of
      (out, s, w) \<Rightarrow>
        out = Stopped \<and> s \<noteq> pending_session ''What is an index?'' \<and>
        topic s = [] \<and> subtopics s = [] \<and> question s = [] \<and> \<not> awaiting_answer s \<and>
        shown w = [Warning enter_topic_text None]) \<and>
   topic (pending_session ''What is an index?'') = ''Databases'' \<and>
   subtopics (pending_session ''What is an index?'') = [''Indexing''] \<and>
   (case script (scripted_env []) generate_inputs
          (Some (pending_session ''What is an index?'')) fresh_world of
      (out, s, w) \<Rightarrow>
        out = Rerun \<and> s \<noteq> pending_session ''What is an index?'' \<and>
        topic s = ''Networks'' \<and> subtopics s = [] \<and> question s = [] \<and>
        shown w = [Failure ''Failed to get subtopics: '' (OtherError ''no reply'')])"
  by code_simp

section \<open>The style of the next question\<close>

lemma score_of_int:
  "map_of kvs k = Some (JInt n) \<Longrightarrow> score_of (JObj kvs) k = Inr n"
  by (simp add: score_of_def dict_get_def py_int_def)

lemma choose_style_cases:
  assumes "choose_style ls t u p a = Inr (sty, prompt)"
  shows "(\<not> truthy ls \<longrightarrow> sty = ''seed'') \<and>
     (truthy ls \<longrightarrow>
        (\<exists>c s. score_of ls ''correctness'' = Inr c \<and> score_of ls ''specificity'' = Inr s \<and>
           sty = (if c \<le> 1 then ''checkpoint'' else if s \<le> 1 then ''probe'' else ''next'')))"
  using assms
  by (auto simp: choose_style_def split: if_splits sum.splits)

lemma ask_question_style_chosen:
  assumes "fst (ask_question e t u ls p a w) = Inr (q, sty)"
  shows "\<exists>prompt. choose_style ls t u p a = Inr (sty, prompt)"
  using assms
  by (auto simp: ask_question_def split: sum.splits prod.splits)

lemma ask_question_returns:
  assumes "scores_readable ls"
    and "\<forall>prompt. \<not> isl (chat_completion e (length (calls w)) prompt (1 / 5))"
  shows "\<not> isl (fst (ask_question e t u ls p a w))"
proof -
  obtain sty prompt where chosen: "choose_style ls t u p a = Inr (sty, prompt)"
    using assms(1) choose_style_readable by blast
  obtain raw where "chat_completion e (length (calls w)) prompt (1 / 5) = Inr raw"
    using assms(2) by (metis sum.collapse(2))
  then show ?thesis
    by (simp add: ask_question_def chosen ask_llm_def)
qed

lemma style_examples:
  "fst (ask_question one_question_env ''Databases'' ''Indexing'' JNull [] [] fresh_world)
     = Inr (''What is an index?'', ''seed'')"
  "fst (ask_question one_question_env ''Databases'' ''Indexing'' (scores_of 1 3) ''Q'' ''A''
          fresh_world)
     = Inr (''What is an index?'', ''checkpoint'')"
  "fst (ask_question one_question_env ''Databases'' ''Indexing'' (scores_of 2 1) ''Q'' ''A''
          fresh_world)
     = Inr (''What is an index?'', ''probe'')"
  "fst (ask_question one_question_env ''Databases'' ''Indexing'' (scores_of 2 2) ''Q'' ''A''
          fresh_world)
     = Inr (''What is an index?'', ''next'')"
  by code_simp+

text \<open>
  C2. Whenever \<open>ask_question\<close> returns a question and a style, the style is fixed by
  the last scores alone, in this order: \<open>seed\<close> when the last scores are absent (false
  for Python: \<open>None\<close>, or a dictionary with no entry); otherwise \<open>checkpoint\<close> when the
  correctness is at most 1; otherwise \<open>probe\<close> when the specificity is at most 1;
  otherwise \<open>next\<close>. The correctness and the specificity are the integers that
  \<open>int(last_scores.get(key, 0))\<close> gives, which for an integer entry is the entry
  itself. And the function does return when the last scores are readable and the
  language model replies.
\<close>

theorem ask_question_style:
  "(fst (ask_question e t u ls p a w) = Inr (q, sty) \<longrightarrow>
      (\<not> truthy ls \<longrightarrow> sty = ''seed'') \<and>
      (truthy ls \<longrightarrow>
         (\<exists>c s. score_of ls ''correctness'' = Inr c \<and> score_of ls ''specificity'' = Inr s \<and>
            sty = (if c \<le> 1 then ''checkpoint'' else if s \<le> 1 then ''probe'' else ''next'')))) \<and>
   \<not> truthy JNull \<and> \<not> truthy (JObj []) \<and>
   (map_of kvs k = Some (JInt n) \<longrightarrow> truthy (JObj kvs) \<and> score_of (JObj kvs) k = Inr n) \<and>
   (scores_readable ls \<and>
    (\<forall>prompt. \<not> isl (chat_completion e (length (calls w)) prompt (1 / 5))) \<longrightarrow>
      \<not> isl (fst (ask_question e t u ls p a w)))"
proof (intro conjI impI)
  assume "fst (ask_question e t u ls p a w) = Inr (q, sty)"
  then obtain prompt where chosen: "choose_style ls t u p a = Inr (sty, prompt)"
    using ask_question_style_chosen by blast
  {
    assume "\<not> truthy ls"
    then show "sty = ''seed''"
      using choose_style_cases [OF chosen] by simp
  }
  {
    assume "truthy ls"
    then show "\<exists>c s. score_of ls ''correctness'' = Inr c \<and> score_of ls ''specificity'' = Inr s \<and>
        sty = (if c \<le> 1 then ''checkpoint'' else if s \<le> 1 then ''probe'' else ''next'')"
      using choose_style_cases [OF chosen] by simp
  }
next
  show "\<not> truthy JNull" by (simp add: truthy_def)
  show "\<not> truthy (JObj [])" by (simp add: truthy_def)
next
  assume "map_of kvs k = Some (JInt n)"
  then show "truthy (JObj kvs)" by (auto simp: truthy_def)
next
  assume "map_of kvs k = Some (JInt n)"
  then show "score_of (JObj kvs) k = Inr n" by (rule score_of_int)
next
  assume "scores_readable ls \<and>
    (\<forall>prompt. \<not> isl (chat_completion e (length (calls w)) prompt (1 / 5)))"
  then show "\<not> isl (fst (ask_question e t u ls p a w))"
    using ask_question_returns by blast
qed


theorem ask_question_style_witness:
  "fst (ask_question one_question_env ''Databases'' ''Indexing'' (scores_of 1 3) ''Q'' ''A''
          fresh_world)
     = Inr (''What is an index?'', ''checkpoint'') \<and>
   truthy (scores_of 1 3) \<and>
   score_of (scores_of 1 3) ''correctness'' = Inr 1 \<and>
   score_of (scores_of 1 3) ''specificity'' = Inr 3 \<and>
   fst (ask_question one_question_env ''Databases'' ''Indexing'' JNull [] [] fresh_world)
     = Inr (''What is an index?'', ''seed'') \<and>
   \<not> truthy JNull \<and>
   map_of [(''correctness'', JInt 1), (''specificity'', JInt 3)] ''specificity''
     = Some (JInt 3) \<and>
   scores_readable (scores_of 1 3) \<and>
   (\<forall>prompt. \<not> isl (chat_completion one_question_env (length (calls fresh_world)) prompt
      (1 / 5))) \<and>
   \<not> isl (fst (ask_question one_question_env ''Databases'' ''Indexing'' (scores_of 1 3)
      ''Q'' ''A'' fresh_world))"
proof -
  have readable: "scores_readable (scores_of 1 3)"
    by (simp add: scores_readable_def scores_of_def score_of_def dict_get_def py_int_def)
  have replies: "\<forall>prompt. \<not> isl (chat_completion one_question_env (length (calls fresh_world))
      prompt (1 / 5))"
    by (simp add: one_question_env_def scripted_env_def fresh_world_def)
  note checkpoint = ask_question_style [of one_question_env "''Databases''" "''Indexing''"
      "scores_of 1 3" "''Q''" "''A''" fresh_world "''What is an index?''" "''checkpoint''"
      "[(''correctness'', JInt 1), (''specificity'', JInt 3)]" "''specificity''" 3]
  note seed = ask_question_style [of one_question_env "''Databases''" "''Indexing''"
      JNull "[]" "[]" fresh_world "''What is an index?''" "''seed''"
      "[(''correctness'', JInt 1), (''specificity'', JInt 3)]" "''specificity''" 3]
  have scores: "truthy (scores_of 1 3)"
    "score_of (scores_of 1 3) ''correctness'' = Inr 1"
    "score_of (scores_of 1 3) ''specificity'' = Inr 3"
    by (simp_all add: scores_of_def truthy_def score_of_def dict_get_def py_int_def)
  show ?thesis
    using readable replies checkpoint seed scores style_examples(1,2)
    by simp
qed

section \<open>The poor-area predicates\<close>

lemma fold_max_less:
  fixes a b :: int
  shows "fold max xs a < b \<longleftrightarrow> a < b \<and> (\<forall>x\<in>set xs. x < b)"
  by (induction xs arbitrary: a) auto

lemma max_default_less:
  "max_default vs 0 < 2 \<longleftrightarrow> (\<forall>v\<in>set vs. v < 2)"
  by (cases vs) (auto simp: max_default_def fold_max_less)

lemma score_of_false:
  assumes "\<not> truthy v" and "score_of v k = Inr c"
  shows "c = 0"
  using assms
  by (cases v) (auto simp: truthy_def score_of_def dict_get_def py_int_def split: sum.splits)

lemma scores_in_readable:
  assumes "\<forall>h\<in>set history. score_of (entry_scores h) k = Inr (val h)"
  shows "scores_in k history = Inr (map val (filter (\<lambda>h. truthy (entry_scores h)) history))"
  using assms by (induction history) auto

lemma all_scores_less:
  assumes "\<forall>h\<in>set history. score_of (entry_scores h) k = Inr (val h)"
  shows "(\<forall>v\<in>set (map val (filter (\<lambda>h. truthy (entry_scores h)) history)). v < 2)
     \<longleftrightarrow> (\<forall>h\<in>set history. val h < 2)"
proof
  assume less: "\<forall>v\<in>set (map val (filter (\<lambda>h. truthy (entry_scores h)) history)). v < 2"
  show "\<forall>h\<in>set history. val h < 2"
  proof
    fix h assume h: "h \<in> set history"
    show "val h < 2"
    proof (cases "truthy (entry_scores h)")
      case True
      then show ?thesis using less h by auto
    next
      case False
      then have "val h = 0"
        using assms h score_of_false by blast
      then show ?thesis by simp
    qed
  qed
next
  assume "\<forall>h\<in>set history. val h < 2"
  then show "\<forall>v\<in>set (map val (filter (\<lambda>h. truthy (entry_scores h)) history)). v < 2"
    by auto
qed

lemma still_poor_readable:
  assumes "\<forall>h\<in>set history. score_of (entry_scores h) k = Inr (val h)"
  shows "(case scores_in k history of
            Inl err \<Rightarrow> Inl err
          | Inr vs \<Rightarrow> Inr (list_ex (\<lambda>h. entry_style h = sty) history \<and> max_default vs 0 < 2))
     = Inr ((\<exists>h\<in>set history. entry_style h = sty) \<and> Max (val ` set history) < 2)"
proof (cases "history = []")
  case True
  then show ?thesis by simp
next
  case False
  then have "Max (val ` set history) < 2 \<longleftrightarrow> (\<forall>h\<in>set history. val h < 2)"
    by simp
  then show ?thesis
    using all_scores_less [OF assms]
    by (simp add: scores_in_readable [OF assms] max_default_less list_ex_iff del: set_map set_filter)
qed

text \<open>
  C3. For a history in which every turn has readable scores (as every turn that the
  answer handler records has), \<open>still_poor_after_checkpoint\<close> returns, and its value
  is true exactly when at least one turn has the style \<open>checkpoint\<close> and the maximum
  correctness over all turns is below 2; likewise \<open>still_poor_after_probe\<close> with the
  style \<open>probe\<close> and the specificity. (A history with a turn of that style is not
  empty, so the maximum is that of a non-empty set.) In particular a checkpoint turn
  with correctness 1 followed by a next turn with correctness 1 gives true for the
  checkpoint predicate, and a single checkpoint turn with correctness 2 gives false.
\<close>

theorem poor_area_predicates:
  "((\<forall>h\<in>set history. score_of (entry_scores h) ''correctness'' = Inr (correctness h)) \<longrightarrow>
      still_poor_after_checkpoint history =
        Inr ((\<exists>h\<in>set history. entry_style h = ''checkpoint'') \<and>
             Max (correctness ` set history) < 2)) \<and>
   ((\<forall>h\<in>set history. score_of (entry_scores h) ''specificity'' = Inr (specificity h)) \<longrightarrow>
      still_poor_after_probe history =
        Inr ((\<exists>h\<in>set history. entry_style h = ''probe'') \<and>
             Max (specificity ` set history) < 2)) \<and>
   still_poor_after_checkpoint [turn_with ''checkpoint'' 1 s1, turn_with ''next'' 1 s2]
     = Inr True \<and>
   still_poor_after_checkpoint [turn_with ''checkpoint'' 2 s3] = Inr False"
proof (intro conjI impI)
  assume "\<forall>h\<in>set history. score_of (entry_scores h) ''correctness'' = Inr (correctness h)"
  then show "still_poor_after_checkpoint history =
      Inr ((\<exists>h\<in>set history. entry_style h = ''checkpoint'') \<and>
           Max (correctness ` set history) < 2)"
    unfolding still_poor_after_checkpoint_def Let_def by (rule still_poor_readable)
next
  assume "\<forall>h\<in>set history. score_of (entry_scores h) ''specificity'' = Inr (specificity h)"
  then show "still_poor_after_probe history =
      Inr ((\<exists>h\<in>set history. entry_style h = ''probe'') \<and>
           Max (specificity ` set history) < 2)"
    unfolding still_poor_after_probe_def Let_def by (rule still_poor_readable)
next
  show "still_poor_after_checkpoint [turn_with ''checkpoint'' 1 s1, turn_with ''next'' 1 s2]
     = Inr True"
    by (simp add: still_poor_after_checkpoint_def turn_with_def truthy_def score_of_def
        dict_get_def py_int_def max_default_def)
  show "still_poor_after_checkpoint [turn_with ''checkpoint'' 2 s3] = Inr False"
    by (simp add: still_poor_after_checkpoint_def turn_with_def truthy_def score_of_def
        dict_get_def py_int_def max_default_def)
qed

theorem poor_area_predicates_witness:
  "score_of (entry_scores (turn_with ''probe'' 1 0)) ''correctness'' = Inr 1 \<and>
   score_of (entry_scores (turn_with ''checkpoint'' 0 3)) ''correctness'' = Inr 0 \<and>
   score_of (entry_scores (turn_with ''probe'' 1 0)) ''specificity'' = Inr 0 \<and>
   score_of (entry_scores (turn_with ''checkpoint'' 0 3)) ''specificity'' = Inr 3 \<and>
   still_poor_after_checkpoint [turn_with ''probe'' 1 0, turn_with ''checkpoint'' 0 3]
     = Inr True \<and>
   still_poor_after_probe [turn_with ''probe'' 1 0, turn_with ''checkpoint'' 0 3]
     = Inr False"
proof -
  have c: "score_of (entry_scores (turn_with sty c s)) ''correctness'' = Inr c" for sty c s
    by (simp add: turn_with_def score_of_def dict_get_def py_int_def)
  have s: "score_of (entry_scores (turn_with sty c s)) ''specificity'' = Inr s" for sty c s
    by (simp add: turn_with_def score_of_def dict_get_def py_int_def)
  have sty: "entry_style (turn_with sty c s) = sty" for sty c s
    by (simp add: turn_with_def)
  note inst = poor_area_predicates [of "[turn_with ''probe'' 1 0, turn_with ''checkpoint'' 0 3]"
      "\<lambda>h. if entry_style h = ''probe'' then 1 else 0"
      "\<lambda>h. if entry_style h = ''probe'' then 0 else 3" 0 0 0]
  show ?thesis
    using inst by (simp add: c s sty)
qed

section \<open>Generated subtopics\<close>

lemma strip_strip_not_blank:
  assumes "strip s \<noteq> []"
  shows "strip (strip s) \<noteq> []"
proof -
  have "hd (strip s) \<in> set (strip s)"
    using assms by simp
  then show ?thesis
    using strip_first_not_space [OF assms] by (auto simp: strip_empty_iff)
qed

lemma stripped_nonblank_not_blank:
  "stripped_nonblank xs = Inr ys \<Longrightarrow> \<forall>s\<in>set ys. strip s \<noteq> []"
proof (induction xs arbitrary: ys)
  case Nil
  then show ?case by simp
next
  case (Cons x xs)
  then show ?case
    by (cases x) (auto split: sum.splits if_splits simp: strip_strip_not_blank)
qed

lemma get_subtopics_value:
  assumes "chat_completion e (length (calls w)) (get_subtopics_prompt t) (1 / 5) = Inr raw"
  shows "fst (get_subtopics e t w) = Inr [t] \<or>
     (\<exists>data items xs full. clean_json e raw = Inr data \<and>
        dict_get data ''subtopics'' (JArr []) = Inr items \<and> py_iter items = Inr xs \<and>
        stripped_nonblank xs = Inr full \<and> full \<noteq> [] \<and>
        fst (get_subtopics e t w) = Inr (take 3 full))"
  using assms
  by (simp add: get_subtopics_def ask_llm_def split: sum.splits)

text \<open>
  C10, as the code has it. When the language model replies, \<open>get_subtopics\<close> returns
  a list, which is not empty and has at most 3 elements. The list is the fallback
  \<open>[topic]\<close> whenever the reply does not parse or its subtopics hold no non-blank
  string, and otherwise its elements are non-blank. So for a non-blank topic all
  elements are non-blank strings; for a blank topic the fallback list holds the blank
  topic itself.
\<close>

theorem get_subtopics_result:
  assumes "chat_completion e (length (calls w)) (get_subtopics_prompt t) (1 / 5) = Inr raw"
  shows "\<exists>subs. fst (get_subtopics e t w) = Inr subs \<and> subs \<noteq> [] \<and> length subs \<le> 3 \<and>
     (subs = [t] \<or> (\<forall>s\<in>set subs. strip s \<noteq> [])) \<and>
     (strip t \<noteq> [] \<longrightarrow> (\<forall>s\<in>set subs. strip s \<noteq> [])) \<and>
     (isl (clean_json e raw) \<longrightarrow> subs = [t]) \<and>
     (\<forall>data items xs. clean_json e raw = Inr data \<and>
        dict_get data ''subtopics'' (JArr []) = Inr items \<and> py_iter items = Inr xs \<and>
        stripped_nonblank xs = Inr [] \<longrightarrow> subs = [t])"
proof -
  have fallback: "isl (clean_json e raw) \<Longrightarrow> fst (get_subtopics e t w) = Inr [t]"
    using assms by (auto simp: get_subtopics_def ask_llm_def isl_def)
  have none: "clean_json e raw = Inr data \<Longrightarrow>
      dict_get data ''subtopics'' (JArr []) = Inr items \<Longrightarrow> py_iter items = Inr xs \<Longrightarrow>
      stripped_nonblank xs = Inr [] \<Longrightarrow> fst (get_subtopics e t w) = Inr [t]" for data items xs
    using assms by (simp add: get_subtopics_def ask_llm_def)
  from get_subtopics_value [OF assms] show ?thesis
  proof
    assume "fst (get_subtopics e t w) = Inr [t]"
    then show ?thesis by auto
  next
    assume "\<exists>data items xs full. clean_json e raw = Inr data \<and>
        dict_get data ''subtopics'' (JArr []) = Inr items \<and> py_iter items = Inr xs \<and>
        stripped_nonblank xs = Inr full \<and> full \<noteq> [] \<and>
        fst (get_subtopics e t w) = Inr (take 3 full)"
    then obtain data items xs full where parsed: "clean_json e raw = Inr data"
        "dict_get data ''subtopics'' (JArr []) = Inr items" "py_iter items = Inr xs"
        "stripped_nonblank xs = Inr full" "full \<noteq> []"
        and val: "fst (get_subtopics e t w) = Inr (take 3 full)"
      by blast
    have nonblank: "\<forall>s\<in>set (take 3 full). strip s \<noteq> []"
      using stripped_nonblank_not_blank [OF parsed(4)] by (meson in_set_takeD)
    have "take 3 full \<noteq> []" "length (take 3 full) \<le> 3"
      using parsed(5) by auto
    moreover have "\<not> isl (clean_json e raw)"
      by (simp add: parsed(1))
    moreover have "\<forall>data items xs. clean_json e raw = Inr data \<and>
        dict_get data ''subtopics'' (JArr []) = Inr items \<and> py_iter items = Inr xs \<and>
        stripped_nonblank xs = Inr [] \<longrightarrow> take 3 full = [t]"
      using parsed by auto
    ultimately show ?thesis
      using val nonblank by auto
  qed
qed

theorem get_subtopics_result_witness:
  "chat_completion subtopics_env (length (calls fresh_world)) (get_subtopics_prompt ''Databases'')
       (1 / 5) = Inr ''{}'' \<and>
   fst (get_subtopics subtopics_env ''Databases'' fresh_world)
     = Inr [''Indexing'', ''Joins'', ''Transactions''] \<and>
   strip ''Databases'' \<noteq> [] \<and> \<not> isl (clean_json subtopics_env ''{}'') \<and>
   chat_completion (scripted_env [''none'']) (length (calls fresh_world))
       (get_subtopics_prompt ''Databases'') (1 / 5) = Inr ''none'' \<and>
   isl (clean_json (scripted_env [''none'']) ''none'') \<and>
   fst (get_subtopics (scripted_env [''none'']) ''Databases'' fresh_world) = Inr [''Databases'']"
proof -
  have reply1: "chat_completion subtopics_env (length (calls fresh_world))
      (get_subtopics_prompt ''Databases'') (1 / 5) = Inr ''{}''"
    by (simp add: subtopics_env_def)
  have reply2: "chat_completion (scripted_env [''none'']) (length (calls fresh_world))
       (get_subtopics_prompt ''Databases'') (1 / 5) = Inr ''none''"
    by (simp add: scripted_env_def fresh_world_def)
  have v1: "fst (get_subtopics subtopics_env ''Databases'' fresh_world)
     = Inr [''Indexing'', ''Joins'', ''Transactions'']"
    by code_simp
  have v2: "fst (get_subtopics (scripted_env [''none'']) ''Databases'' fresh_world)
     = Inr [''Databases'']"
    by code_simp
  have p1: "\<not> isl (clean_json subtopics_env ''{}'')"
    by code_simp
  have p2: "isl (clean_json (scripted_env [''none'']) ''none'')"
    by code_simp
  have t: "strip ''Databases'' \<noteq> []"
    by code_simp
  show ?thesis
    using get_subtopics_result [OF reply1] get_subtopics_result [OF reply2]
      reply1 reply2 v1 v2 p1 p2 t
    by simp
qed

text \<open>
  C10 as stated fails for a blank topic: the topic is two spaces and the reply does
  not parse, so the list returned is the topic itself, a blank string.
\<close>

theorem blank_topic_counterexample:
  "fst (get_subtopics (scripted_env [''none'']) ''  '' fresh_world) = Inr [''  ''] \<and>
   strip ''  '' = []"
  by code_simp

section \<open>The clean-up of the question\<close>

lemma space_not_word: "is_space c \<Longrightarrow> \<not> is_word c"
  by (auto simp: is_space_def is_word_def Let_def)

lemma answer_label_append: "answer_label x \<Longrightarrow> answer_label (x @ y)"
proof -
  assume a: "answer_label x"
  then have len: "6 \<le> length x"
  proof -
    from a have "length (map ascii_lower (take 6 x)) = length ''answer''"
      by (simp add: answer_label_def)
    then show ?thesis by simp
  qed
  from a obtain c rest where d: "dropWhile is_space (drop 6 x) = c # rest" and c: "c = CHR '':''"
    by (auto simp: answer_label_def split: list.splits)
  have "c \<in> set (drop 6 x)"
    by (metis d list.set_intros(1) set_dropWhileD)
  moreover have "\<not> is_space c"
    by (simp add: c is_space_def)
  ultimately have "dropWhile is_space (drop 6 x @ y) = dropWhile is_space (drop 6 x) @ y"
    by (meson dropWhile_append1)
  then show ?thesis
    using a len by (simp add: answer_label_def d c)
qed

lemma before_answer_prefix: "prefix (before_answer aw s) s"
  by (induction s arbitrary: aw) auto

lemma no_label_before_answer: "\<not> label_in aw (before_answer aw s)"
proof (induction s arbitrary: aw)
  case Nil
  then show ?case by simp
next
  case (Cons c cs)
  show ?case
  proof (cases "\<not> aw \<and> answer_label (c # cs)")
    case True
    then show ?thesis by simp
  next
    case False
    obtain rest where rest: "cs = before_answer (is_word c) cs @ rest"
      using before_answer_prefix [of "is_word c" cs] by (auto simp: prefix_def)
    have "\<not> (\<not> aw \<and> answer_label (c # before_answer (is_word c) cs))"
    proof
      assume h: "\<not> aw \<and> answer_label (c # before_answer (is_word c) cs)"
      then have "answer_label ((c # before_answer (is_word c) cs) @ rest)"
        using answer_label_append by blast
      then have "answer_label (c # cs)"
        using rest by simp
      then show False using False h by simp
    qed
    then show ?thesis
      using False Cons.IH [of "is_word c"] by simp
  qed
qed

lemma label_in_append: "label_in aw x \<Longrightarrow> label_in aw (x @ y)"
proof (induction x arbitrary: aw)
  case Nil
  then show ?case by simp
next
  case (Cons c cs)
  then show ?case
    using answer_label_append [of "c # cs" y] by auto
qed

lemma label_in_lstrip: "label_in False (lstrip s) \<Longrightarrow> label_in False s"
proof (induction s)
  case Nil
  then show ?case by (simp add: lstrip_def)
next
  case (Cons c cs)
  show ?case
  proof (cases "is_space c")
    case True
    then have "label_in False (lstrip cs)"
      using Cons.prems by (simp add: lstrip_def)
    then have "label_in False cs" by (rule Cons.IH)
    then show ?thesis
      using True space_not_word by simp
  next
    case False
    then show ?thesis using Cons.prems by (simp add: lstrip_def)
  qed
qed

lemma label_in_rstrip: "label_in aw (rstrip s) \<Longrightarrow> label_in aw s"
  using label_in_append [of aw "rstrip s" "rev (takeWhile is_space (rev s))"] rstrip_split [of s]
  by simp

lemma label_in_strip: "label_in False (strip s) \<Longrightarrow> label_in False s"
  unfolding strip_def using label_in_rstrip label_in_lstrip by blast

lemma no_label_clean_question: "\<not> label_in False (clean_question raw)"
  unfolding clean_question_def Let_def
  using label_in_strip no_label_before_answer by blast

lemma before_answer_absent: "\<not> label_in aw s \<Longrightarrow> before_answer aw s = s"
  by (induction s arbitrary: aw) auto

lemma find_from_absent_nonempty: "find_from i old s = - 1 \<Longrightarrow> old \<noteq> []"
  by (cases s) (auto split: if_splits)

lemma replace_absent: "find_from i old s = - 1 \<Longrightarrow> replace s old new = s"
proof (induction s arbitrary: i)
  case Nil
  then show ?case
    by (subst replace.simps) (auto split: if_splits)
next
  case (Cons c cs)
  have ne: "old \<noteq> []"
    using Cons.prems by (rule find_from_absent_nonempty)
  have np: "\<not> prefix old (c # cs)" and rest: "find_from (Suc i) old cs = - 1"
    using Cons.prems by (auto split: if_splits)
  have "replace (c # cs) old new = c # replace cs old new"
    using ne np by (subst replace.simps) simp
  then show ?case
    using Cons.IH [OF rest] by simp
qed

lemma clean_question_trimmed: "strip (clean_question raw) = clean_question raw"
  by (simp add: clean_question_def strip_strip)

lemma clean_question_unlabelled:
  assumes "find raw ''Question:'' = - 1" and "find raw ''QUESTION:'' = - 1"
    and "\<not> label_in False (strip raw)"
  shows "clean_question raw = strip raw"
proof -
  have "replace raw ''Question:'' [] = raw"
    using assms(1) unfolding find_def by (rule replace_absent)
  moreover have "replace raw ''QUESTION:'' [] = raw"
    using assms(2) unfolding find_def by (rule replace_absent)
  ultimately show ?thesis
    using assms(3) by (simp add: clean_question_def before_answer_absent strip_strip)
qed

lemma ask_question_cleaned:
  assumes "fst (ask_question e t u ls p a w) = Inr (q, sty)"
  shows "\<exists>prompt raw. chat_completion e (length (calls w)) prompt (1 / 5) = Inr raw \<and>
     q = clean_question raw"
  using assms
  by (auto simp: ask_question_def ask_llm_def split: sum.splits prod.splits)

text \<open>
  C9, as the code has it. The question that \<open>ask_question\<close> returns is the reply of
  the language model after this clean-up: every occurrence of the text \<open>Question:\<close>
  and then every occurrence of \<open>QUESTION:\<close> is removed, wherever it stands; the text
  is trimmed; it is cut at the first match of \<open>(?i)\banswer\s*:\<close>, that is the word
  \<open>answer\<close> in any letter case that no word character precedes, followed by any
  whitespace and a colon; and it is trimmed again. So the returned question is trimmed
  and holds no match of that pattern, and a reply that holds neither of the two labels
  nor, once trimmed, a match of the pattern is returned trimmed and otherwise unchanged.
\<close>

theorem question_clean_up:
  "(fst (ask_question e t u ls p a w) = Inr (q, sty) \<longrightarrow>
      (\<exists>prompt reply. chat_completion e (length (calls w)) prompt (1 / 5) = Inr reply \<and>
         q = clean_question reply)) \<and>
   clean_question raw =
     strip (before_answer False
       (strip (replace (replace raw ''Question:'' []) ''QUESTION:'' []))) \<and>
   \<not> label_in False (clean_question raw) \<and>
   strip (clean_question raw) = clean_question raw \<and>
   (find raw ''Question:'' = - 1 \<and> find raw ''QUESTION:'' = - 1 \<and>
    \<not> label_in False (strip raw) \<longrightarrow> clean_question raw = strip raw)"
proof (intro conjI impI)
  assume "fst (ask_question e t u ls p a w) = Inr (q, sty)"
  then show "\<exists>prompt reply. chat_completion e (length (calls w)) prompt (1 / 5) = Inr reply \<and>
      q = clean_question reply"
    by (rule ask_question_cleaned)
next
  show "clean_question raw =
     strip (before_answer False
       (strip (replace (replace raw ''Question:'' []) ''QUESTION:'' [])))"
    by (simp add: clean_question_def)
  show "\<not> label_in False (clean_question raw)"
    by (rule no_label_clean_question)
  show "strip (clean_question raw) = clean_question raw"
    by (rule clean_question_trimmed)
next
  assume "find raw ''Question:'' = - 1 \<and> find raw ''QUESTION:'' = - 1 \<and>
    \<not> label_in False (strip raw)"
  then show "clean_question raw = strip raw"
    using clean_question_unlabelled by blast
qed

theorem question_clean_up_witness:
  "fst (ask_question one_question_env ''Databases'' ''Indexing'' JNull [] [] fresh_world)
     = Inr (''What is an index?'', ''seed'') \<and>
   find '' What is an index? '' ''Question:'' = - 1 \<and>
   find '' What is an index? '' ''QUESTION:'' = - 1 \<and>
   \<not> label_in False (strip '' What is an index? '') \<and>
   clean_question '' What is an index? '' = ''What is an index?'' \<and>
   strip '' What is an index? '' = ''What is an index?''"
proof -
  have facts: "find '' What is an index? '' ''Question:'' = - 1"
    "find '' What is an index? '' ''QUESTION:'' = - 1"
    "\<not> label_in False (strip '' What is an index? '')"
    "strip '' What is an index? '' = ''What is an index?''"
    by code_simp+
  note unlabelled = question_clean_up [of one_question_env "''Databases''" "''Indexing''"
      JNull "[]" "[]" fresh_world "''What is an index?''" "''seed''" "'' What is an index? ''",
      THEN conjunct2, THEN conjunct2, THEN conjunct2, THEN conjunct2]
  have "clean_question '' What is an index? '' = strip '' What is an index? ''"
    using unlabelled facts(1,2,3) by blast
  then show ?thesis
    using facts style_examples(1) by simp
qed

text \<open>
  C9 as stated fails for a label that does not lead the text. The reply
  \<open>Follow-up Question: What is a hash index?\<close> has no leading label and no answer
  label, so by the claim it is returned unchanged; the code removes the label from the
  middle of the text.
\<close>

theorem inner_label_counterexample:
  "clean_question ''Follow-up Question: What is a hash index?''
     = ''Follow-up  What is a hash index?'' \<and>
   described_clean_question ''Follow-up Question: What is a hash index?''
     = ''Follow-up Question: What is a hash index?''"
  by code_simp

section \<open>The grading normalizer\<close>

lemma find_from_char:
  "find_from i [c] s =
     (if c \<in> set s then int i + int (length (takeWhile (\<lambda>x. x \<noteq> c) s)) else - 1)"
  by (induction s arbitrary: i) auto

lemma rfind_from_char:
  "rfind_from i best [c] s =
     (if c \<in> set s
      then int i + int (length s) - 1 - int (length (takeWhile (\<lambda>x. x \<noteq> c) (rev s)))
      else best)"
proof (induction s arbitrary: i best)
  case Nil
  then show ?case by simp
next
  case (Cons x xs)
  show ?case
  proof (cases "c \<in> set xs")
    case True
    then have "takeWhile (\<lambda>x. x \<noteq> c) (rev xs @ [x]) = takeWhile (\<lambda>x. x \<noteq> c) (rev xs)"
      by (intro takeWhile_append1 [of c]) auto
    then show ?thesis using True Cons.IH by simp
  next
    case False
    then have "takeWhile (\<lambda>x. x \<noteq> c) (rev xs @ [x]) = rev xs @ takeWhile (\<lambda>x. x \<noteq> c) [x]"
      by (intro takeWhile_append2) auto
    then show ?thesis using False Cons.IH by auto
  qed
qed

lemma find_char:
  "find s [c] = (if c \<in> set s then int (length (takeWhile (\<lambda>x. x \<noteq> c) s)) else - 1)"
  by (simp add: find_def find_from_char)

lemma rfind_char:
  "rfind s [c] =
     (if c \<in> set s then int (length s) - 1 - int (length (takeWhile (\<lambda>x. x \<noteq> c) (rev s)))
      else - 1)"
  by (simp add: rfind_def rfind_from_char)

lemma takeWhile_shorter: "c \<in> set s \<Longrightarrow> length (takeWhile (\<lambda>x. x \<noteq> c) s) < length s"
  by (induction s) auto

lemma find_char_bounds:
  assumes "c \<in> set s"
  shows "0 \<le> find s [c]" and "find s [c] < int (length s)"
    and "0 \<le> rfind s [c]" and "rfind s [c] < int (length s)"
  using assms takeWhile_shorter [of c s] takeWhile_shorter [of c "rev s"]
  by (simp_all add: find_char rfind_char)

lemma find_padded:
  assumes "\<forall>x\<in>set A. x \<noteq> c" and "\<forall>x\<in>set B. x \<noteq> c"
  shows "find (A @ s @ B) [c] = (if c \<in> set s then int (length A) + find s [c] else - 1)"
proof (cases "c \<in> set s")
  case True
  have "takeWhile (\<lambda>x. x \<noteq> c) (A @ s @ B) = A @ takeWhile (\<lambda>x. x \<noteq> c) (s @ B)"
    using assms(1) by (intro takeWhile_append2) auto
  also have "takeWhile (\<lambda>x. x \<noteq> c) (s @ B) = takeWhile (\<lambda>x. x \<noteq> c) s"
    using True by (intro takeWhile_append1 [of c]) auto
  finally show ?thesis
    using True by (simp add: find_char)
next
  case False
  then show ?thesis using assms by (auto simp: find_char)
qed

lemma rfind_padded:
  assumes "\<forall>x\<in>set A. x \<noteq> c" and "\<forall>x\<in>set B. x \<noteq> c"
  shows "rfind (A @ s @ B) [c] = (if c \<in> set s then int (length A) + rfind s [c] else - 1)"
proof (cases "c \<in> set s")
  case True
  have "takeWhile (\<lambda>x. x \<noteq> c) (rev B @ rev s @ rev A)
      = rev B @ takeWhile (\<lambda>x. x \<noteq> c) (rev s @ rev A)"
    using assms(2) by (intro takeWhile_append2) auto
  also have "takeWhile (\<lambda>x. x \<noteq> c) (rev s @ rev A) = takeWhile (\<lambda>x. x \<noteq> c) (rev s)"
    using True by (intro takeWhile_append1 [of c]) auto
  finally show ?thesis
    using True by (simp add: rfind_char)
next
  case False
  then show ?thesis using assms by (auto simp: rfind_char)
qed

lemma slice_padded:
  assumes "0 \<le> a" and "b \<le> int (length s)"
  shows "slice (A @ s @ B) (int (length A) + a) (int (length A) + b) = slice s a b"
proof -
  have start: "nat (int (length A) + a) = length A + nat a"
    using assms(1) by simp
  have len: "nat (int (length A) + b) - (length A + nat a) = nat b - nat a"
    using assms(1) by (cases "0 \<le> b") auto
  have "nat b \<le> length s"
    using assms by simp
  then have short: "nat b - nat a \<le> length (drop (nat a) s)"
    by simp
  have "slice (A @ s @ B) (int (length A) + a) (int (length A) + b)
      = take (nat b - nat a) (drop (nat a) s @ drop (nat a - length s) B)"
    by (simp add: slice_def start len)
  also have "\<dots> = take (nat b - nat a) (drop (nat a) s)"
    using short by simp
  finally show ?thesis
    by (simp add: slice_def)
qed

lemma find_first:
  assumes "c \<in> set s"
  shows "s ! nat (find s [c]) = c" and "\<forall>i < nat (find s [c]). s ! i \<noteq> c"
proof -
  let ?n = "length (takeWhile (\<lambda>x. x \<noteq> c) s)"
  have n: "nat (find s [c]) = ?n"
    using assms by (simp add: find_char)
  have "?n < length s"
    using assms by (rule takeWhile_shorter)
  then have "\<not> (s ! ?n \<noteq> c)"
    by (rule nth_length_takeWhile)
  then show "s ! nat (find s [c]) = c"
    by (simp add: n)
  show "\<forall>i < nat (find s [c]). s ! i \<noteq> c"
  proof (intro allI impI)
    fix i assume "i < nat (find s [c])"
    then have i: "i < ?n" by (simp add: n)
    then have "takeWhile (\<lambda>x. x \<noteq> c) s ! i \<in> set (takeWhile (\<lambda>x. x \<noteq> c) s)"
      by simp
    then have "takeWhile (\<lambda>x. x \<noteq> c) s ! i \<noteq> c"
      by (auto dest: set_takeWhileD)
    then show "s ! i \<noteq> c"
      using i by (simp add: takeWhile_nth)
  qed
qed

lemma rfind_last:
  assumes "c \<in> set s"
  shows "s ! nat (rfind s [c]) = c"
    and "\<forall>i. nat (rfind s [c]) < i \<and> i < length s \<longrightarrow> s ! i \<noteq> c"
proof -
  let ?n = "length (takeWhile (\<lambda>x. x \<noteq> c) (rev s))"
  have short: "?n < length s"
    using takeWhile_shorter [of c "rev s"] assms by simp
  then have r: "nat (rfind s [c]) = length s - 1 - ?n"
    using assms by (simp add: rfind_char)
  have first: "rev s ! nat (find (rev s) [c]) = c"
    and before: "\<forall>i < nat (find (rev s) [c]). rev s ! i \<noteq> c"
    using find_first [of c "rev s"] assms by simp_all
  have f: "nat (find (rev s) [c]) = ?n"
    using assms by (simp add: find_char)
  have "rev s ! ?n = s ! (length s - Suc ?n)"
    using short by (simp add: rev_nth)
  then show "s ! nat (rfind s [c]) = c"
    using first by (simp add: f r)
  show "\<forall>i. nat (rfind s [c]) < i \<and> i < length s \<longrightarrow> s ! i \<noteq> c"
  proof (intro allI impI)
    fix i assume i: "nat (rfind s [c]) < i \<and> i < length s"
    then have "length s - Suc i < ?n"
      using short by (simp add: r) arith
    then have "rev s ! (length s - Suc i) \<noteq> c"
      using before by (simp add: f)
    moreover have "rev s ! (length s - Suc i) = s ! i"
    proof -
      have idx: "length s - Suc (length s - Suc i) = i"
        using i by arith
      have "length s - Suc i < length s"
        using i by arith
      then have "rev s ! (length s - Suc i) = s ! (length s - Suc (length s - Suc i))"
        by (rule rev_nth)
      then show ?thesis
        by (simp only: idx)
    qed
    ultimately show "s ! i \<noteq> c" by simp
  qed
qed

lemma clean_json_on_text:
  "clean_json e text =
     (if find text ''{'' = - 1 \<or> rfind text ''}'' = - 1 \<or> rfind text ''}'' \<le> find text ''{''
      then Inl JSONDecodeError
      else json_loads e
             (replace (replace (slice text (find text ''{'') (rfind text ''}'' + 1))
                '',}'' ''}'') '',]'' '']''))"
proof -
  obtain A B where parts: "text = A @ strip text @ B"
      and A: "\<forall>c\<in>set A. is_space c" and B: "\<forall>c\<in>set B. is_space c"
    using strip_decomp by blast
  let ?s = "strip text"
  have ns: "\<not> is_space CHR ''{''" "\<not> is_space CHR ''}''"
    by (simp_all add: is_space_def)
  have pad: "\<forall>x\<in>set A. x \<noteq> CHR ''{''" "\<forall>x\<in>set B. x \<noteq> CHR ''{''"
    "\<forall>x\<in>set A. x \<noteq> CHR ''}''" "\<forall>x\<in>set B. x \<noteq> CHR ''}''"
    using A B ns by auto
  have f: "find text ''{'' = (if CHR ''{'' \<in> set ?s then int (length A) + find ?s ''{'' else - 1)"
    using find_padded [OF pad(1,2), of ?s] parts by simp
  have r: "rfind text ''}'' = (if CHR ''}'' \<in> set ?s then int (length A) + rfind ?s ''}'' else - 1)"
    using rfind_padded [OF pad(3,4), of ?s] parts by simp
  show ?thesis
  proof (cases "CHR ''{'' \<in> set ?s \<and> CHR ''}'' \<in> set ?s")
    case False
    then have "find ?s ''{'' = - 1 \<or> rfind ?s ''}'' = - 1"
      by (auto simp: find_char rfind_char)
    moreover have "find text ''{'' = - 1 \<or> rfind text ''}'' = - 1"
      using False f r by auto
    ultimately show ?thesis
      by (auto simp: clean_json_def Let_def)
  next
    case True
    then have fb: "0 \<le> find ?s ''{''" and rb: "rfind ?s ''}'' < int (length ?s)"
      and rb0: "0 \<le> rfind ?s ''}''"
      using find_char_bounds [of "CHR ''{''" ?s] find_char_bounds [of "CHR ''}''" ?s] by auto
    have ft: "find text ''{'' = int (length A) + find ?s ''{''"
      and rt: "rfind text ''}'' = int (length A) + rfind ?s ''}''"
      using True f r by auto
    have "slice (A @ ?s @ B) (int (length A) + find ?s ''{'') (int (length A) + (rfind ?s ''}'' + 1))
        = slice ?s (find ?s ''{'') (rfind ?s ''}'' + 1)"
      using fb rb by (intro slice_padded) auto
    then have sl: "slice text (find text ''{'') (rfind text ''}'' + 1)
        = slice ?s (find ?s ''{'') (rfind ?s ''}'' + 1)"
      using parts by (simp add: ft rt add.assoc)
    show ?thesis
      using fb rb0 by (simp add: clean_json_def Let_def sl) (simp add: ft rt)
  qed
qed

text \<open>
  C4. \<open>clean_json\<close> raises the decoding error when the text has no opening brace,
  or no closing brace, or its last closing brace stands before its first opening brace;
  otherwise it returns what \<open>json.loads\<close> returns, or raises what it raises, on the
  text from the first opening brace to the last closing brace, in which every \<open>,}\<close>
  is replaced by \<open>}\<close> and then every \<open>,]\<close> by \<open>]\<close>. So it raises exactly in those
  three cases and when that repaired text does not parse. (\<open>find\<close> and \<open>rfind\<close> on a
  brace that occurs give the positions of its first and of its last occurrence; the
  trimming that the function does first moves neither brace relative to the other.) The
  noisy grading of the specification is handed to \<open>json.loads\<close> as
  \<open>{"correctness":2,"specificity":1}\<close>, and a text with no brace raises the error.
\<close>

theorem clean_json_cases:
  "clean_json e text =
     (if CHR ''{'' \<notin> set text \<or> CHR ''}'' \<notin> set text \<or> rfind text ''}'' \<le> find text ''{''
      then Inl JSONDecodeError
      else json_loads e
             (replace (replace (slice text (find text ''{'') (rfind text ''}'' + 1))
                '',}'' ''}'') '',]'' '']'')) \<and>
   (isl (clean_json e text) \<longleftrightarrow>
      CHR ''{'' \<notin> set text \<or> CHR ''}'' \<notin> set text \<or> rfind text ''}'' \<le> find text ''{'' \<or>
      isl (json_loads e
             (replace (replace (slice text (find text ''{'') (rfind text ''}'' + 1))
                '',}'' ''}'') '',]'' '']''))) \<and>
   (CHR ''{'' \<in> set text \<longrightarrow>
      0 \<le> find text ''{'' \<and> text ! nat (find text ''{'') = CHR ''{'' \<and>
      (\<forall>i < nat (find text ''{''). text ! i \<noteq> CHR ''{'')) \<and>
   (CHR ''}'' \<in> set text \<longrightarrow>
      0 \<le> rfind text ''}'' \<and> text ! nat (rfind text ''}'') = CHR ''}'' \<and>
      (\<forall>i. nat (rfind text ''}'') < i \<and> i < length text \<longrightarrow> text ! i \<noteq> CHR ''}'')) \<and>
   clean_json e noisy_grading = json_loads e ''{\"correctness\":2,\"specificity\":1}'' \<and>
   (CHR ''{'' \<notin> set text \<and> CHR ''}'' \<notin> set text \<longrightarrow> clean_json e text = Inl JSONDecodeError)"
proof -
  have absent: "find text ''{'' = - 1 \<longleftrightarrow> CHR ''{'' \<notin> set text"
    "rfind text ''}'' = - 1 \<longleftrightarrow> CHR ''}'' \<notin> set text"
    using takeWhile_shorter [of "CHR ''}''" "rev text"]
    by (auto simp: find_char rfind_char)
  have cases: "clean_json e text =
     (if CHR ''{'' \<notin> set text \<or> CHR ''}'' \<notin> set text \<or> rfind text ''}'' \<le> find text ''{''
      then Inl JSONDecodeError
      else json_loads e
             (replace (replace (slice text (find text ''{'') (rfind text ''}'' + 1))
                '',}'' ''}'') '',]'' '']''))"
    using clean_json_on_text [of e "text"] by (simp only: absent)
  have raises: "isl (clean_json e text) \<longleftrightarrow>
      CHR ''{'' \<notin> set text \<or> CHR ''}'' \<notin> set text \<or> rfind text ''}'' \<le> find text ''{'' \<or>
      isl (json_loads e
             (replace (replace (slice text (find text ''{'') (rfind text ''}'' + 1))
                '',}'' ''}'') '',]'' '']''))"
    by (subst cases) auto
  have first: "CHR ''{'' \<in> set text \<longrightarrow>
      0 \<le> find text ''{'' \<and> text ! nat (find text ''{'') = CHR ''{'' \<and>
      (\<forall>i < nat (find text ''{''). text ! i \<noteq> CHR ''{'')"
    using find_first [of "CHR ''{''" "text"] find_char_bounds(1) [of "CHR ''{''" "text"] by simp
  have last: "CHR ''}'' \<in> set text \<longrightarrow>
      0 \<le> rfind text ''}'' \<and> text ! nat (rfind text ''}'') = CHR ''}'' \<and>
      (\<forall>i. nat (rfind text ''}'') < i \<and> i < length text \<longrightarrow> text ! i \<noteq> CHR ''}'')"
    using rfind_last [of "CHR ''}''" "text"] find_char_bounds(3) [of "CHR ''}''" "text"] by simp
  have example: "clean_json e noisy_grading
      = json_loads e ''{\"correctness\":2,\"specificity\":1}''"
    by (simp add: noisy_grading_def clean_json_def strip_def lstrip_def rstrip_def is_space_def
        find_def rfind_def slice_def replace.simps)
  have none: "CHR ''{'' \<notin> set text \<and> CHR ''}'' \<notin> set text \<longrightarrow>
      clean_json e text = Inl JSONDecodeError"
    by (simp add: cases)
  show ?thesis
    using cases raises first last example none by (intro conjI)
qed

theorem clean_json_cases_witness:
  "CHR ''{'' \<in> set noisy_grading \<and> CHR ''}'' \<in> set noisy_grading \<and>
   find noisy_grading ''{'' = 5 \<and> rfind noisy_grading ''}'' = 38 \<and>
   noisy_grading ! 5 = CHR ''{'' \<and> noisy_grading ! 38 = CHR ''}'' \<and>
   clean_json (scripted_env []) noisy_grading
     = Inr (JObj [(''correctness'', JInt 2), (''specificity'', JInt 1)]) \<and>
   CHR ''{'' \<notin> set ''no braces here'' \<and> CHR ''}'' \<notin> set ''no braces here'' \<and>
   clean_json (scripted_env []) ''no braces here'' = Inl JSONDecodeError \<and>
   isl (clean_json (scripted_env []) ''no braces here'')"
proof -
  have positions: "CHR ''{'' \<in> set noisy_grading" "CHR ''}'' \<in> set noisy_grading"
    "find noisy_grading ''{'' = 5" "rfind noisy_grading ''}'' = 38"
    by code_simp+
  have parsed: "json_loads (scripted_env []) ''{\"correctness\":2,\"specificity\":1}''
      = Inr (JObj [(''correctness'', JInt 2), (''specificity'', JInt 1)])"
    by (simp add: scripted_env_def sample_loads_def)
  have plain: "CHR ''{'' \<notin> set ''no braces here''" "CHR ''}'' \<notin> set ''no braces here''"
    by simp_all
  note noisy = clean_json_cases [of "scripted_env []" noisy_grading]
  note bare = clean_json_cases [of "scripted_env []" "''no braces here''"]
  have "clean_json (scripted_env []) noisy_grading
      = json_loads (scripted_env []) ''{\"correctness\":2,\"specificity\":1}''"
    using noisy by blast
  then have "clean_json (scripted_env []) noisy_grading
      = Inr (JObj [(''correctness'', JInt 2), (''specificity'', JInt 1)])"
    by (simp only: parsed)
  moreover have "noisy_grading ! nat (find noisy_grading ''{'') = CHR ''{''"
    "noisy_grading ! nat (rfind noisy_grading ''}'') = CHR ''}''"
    using noisy positions(1,2) by blast+
  then have "noisy_grading ! 5 = CHR ''{''" "noisy_grading ! 38 = CHR ''}''"
    by (simp_all add: positions)
  moreover have "clean_json (scripted_env []) ''no braces here'' = Inl JSONDecodeError"
    using bare plain by blast
  ultimately show ?thesis
    using positions plain by simp
qed

end
